theory Spec2Isabelle
  imports Complex_Main "HOL-Library.Multiset"
begin

section \<open>Conventions of the embedding\<close>

text \<open>
  The C++ type \<open>double\<close> is modelled by \<^typ>\<open>real\<close>: the embedding is the exact-arithmetic
  reading of the numerical code (no rounding, no overflow to infinity). Where the source
  can produce NaN or an infinity from finite operands (a division by a zero float:
  \<open>get_r_squared\<close>, the static \<open>mean_squared_error\<close> of the network on empty vectors; the
  literal \<open>NAN\<close> in \<open>train_for_epochs\<close>) the value is a \<^typ>\<open>real option\<close> and \<open>None\<close> stands for it.
  The loop of \<open>fit\<close> is the exception: its control flow tests \<open>std::isfinite\<close>, so it is
  modelled a second time over a type of doubles with the infinities and NaN, where a
  result beyond the largest finite double overflows.
  \<open>std::vector<double>\<close> is a \<^typ>\<open>real list\<close>, \<open>size_t\<close> is \<^typ>\<open>nat\<close>, \<open>int\<close> is
  \<^typ>\<open>int\<close>. Every \<open>throw std::invalid_argument\<close> is the value \<open>Inl InvalidArgument\<close>; an
  integer division by zero is \<open>Inl DivisionByZero\<close>.
  The OpenMP reductions are sums, whose order does not matter over the reals.
  \<open>std::shuffle\<close> with its generator is a parameter of the model: a function that gives,
  for the number of the epoch and the current index vector, the shuffled index vector.
\<close>

datatype error = InvalidArgument | DivisionByZero

section \<open>linear\_regression.cpp\<close>

record LinearRegression =
  slope :: real
  intercept :: real
  learning_rate :: real
  max_iterations :: int
  batch_size :: int

text \<open>The constructor \<open>LinearRegression(lr, max_iter, batch_size)\<close>.\<close>

definition new_LinearRegression :: "real \<Rightarrow> int \<Rightarrow> int \<Rightarrow> LinearRegression" where
  "new_LinearRegression lr max_iter bs =
     \<lparr>slope = 0, intercept = 0, learning_rate = lr, max_iterations = max_iter, batch_size = bs\<rparr>"

definition predict_lr :: "LinearRegression \<Rightarrow> real \<Rightarrow> real" where
  "predict_lr m x = slope m * x + intercept m"

text \<open>\<open>mean\<close>: throws on the empty vector, otherwise the sum over the size.\<close>

definition mean :: "real list \<Rightarrow> error + real" where
  "mean vec =
     (if vec = [] then Inl InvalidArgument
      else Inr (fold (\<lambda>i sum. sum + vec ! i) [0..<length vec] 0 / real (length vec)))"

text \<open>\<open>mean_squared_error\<close>: the length check comes first, then the empty case returns 0.\<close>

definition mean_squared_error :: "LinearRegression \<Rightarrow> real list \<Rightarrow> real list \<Rightarrow> error + real" where
  "mean_squared_error m X y =
     (if length X \<noteq> length y then Inl InvalidArgument
      else if X = [] then Inr 0
      else Inr (fold (\<lambda>i mse_sum.
                   let prediction = slope m * X ! i + intercept m
                   in mse_sum + (prediction - y ! i) ^ 2) [0..<length X] 0
                / real (length X)))"

definition get_mse :: "LinearRegression \<Rightarrow> real list \<Rightarrow> real list \<Rightarrow> error + real" where
  "get_mse m X y = mean_squared_error m X y"

text \<open>
  \<open>get_r_squared\<close>: one combined check for mismatched or empty input. The final division
  \<open>rss / tss\<close> is a floating-point division: with \<open>tss = 0\<close> it yields NaN or an infinity
  and does not throw; that outcome is \<open>Inr None\<close> here.
\<close>

definition get_r_squared :: "LinearRegression \<Rightarrow> real list \<Rightarrow> real list \<Rightarrow> error + real option" where
  "get_r_squared m X y =
     (if length X \<noteq> length y \<or> X = [] then Inl InvalidArgument
      else case mean y of
        Inl e \<Rightarrow> Inl e
      | Inr y_mean \<Rightarrow>
          let tss = fold (\<lambda>i tss. let diff = y ! i - y_mean in tss + diff * diff) [0..<length y] 0
          in (case mean_squared_error m X y of
                Inl e \<Rightarrow> Inl e
              | Inr mse \<Rightarrow>
                  let rss = mse * real (length X)
                  in Inr (if tss = 0 then None else Some (1 - rss / tss))))"

text \<open>\<open>fit_analytical\<close>: two checks, the two means, one loop for both sums, the guard on
  the denominator, then the intercept from the slope just stored.\<close>

definition fit_analytical :: "LinearRegression \<Rightarrow> real list \<Rightarrow> real list \<Rightarrow> error + LinearRegression" where
  "fit_analytical m X y =
     (if length X \<noteq> length y then Inl InvalidArgument
      else if X = [] then Inl InvalidArgument
      else case mean X of
        Inl e \<Rightarrow> Inl e
      | Inr mean_x \<Rightarrow>
         (case mean y of
            Inl e \<Rightarrow> Inl e
          | Inr mean_y \<Rightarrow>
              let n = length X;
                  (numerator, denominator) =
                    fold (\<lambda>i (numerator, denominator).
                            let x_diff = X ! i - mean_x; y_diff = y ! i - mean_y
                            in (numerator + x_diff * y_diff, denominator + x_diff * x_diff))
                         [0..<n] (0, 0);
                  m1 = (if \<bar>denominator\<bar> < 1 / 10 ^ 10 then m\<lparr>slope := 0\<rparr>
                        else m\<lparr>slope := numerator / denominator\<rparr>)
              in Inr (m1\<lparr>intercept := mean_y - slope m1 * mean_x\<rparr>)))"

subsection \<open>Gradient descent: one mini-batch of \<open>fit\<close>, in exact arithmetic\<close>

text \<open>The gradient loop of one mini-batch: it reads the first \<open>current_batch_size\<close> entries
  of the batch vectors and the parameters as they are before the update.\<close>

definition batch_gradients :: "LinearRegression \<Rightarrow> real list \<Rightarrow> real list \<Rightarrow> nat \<Rightarrow> real \<times> real" where
  "batch_gradients m batch_X batch_y current_batch_size =
     fold (\<lambda>i (slope_gradient, intercept_gradient).
             let prediction = slope m * batch_X ! i + intercept m;
                 error = prediction - batch_y ! i
             in (slope_gradient + error * batch_X ! i, intercept_gradient + error))
          [0..<current_batch_size] (0, 0)"

text \<open>The parameter update that ends a mini-batch. Inside the loop of \<open>fit\<close> the batch holds
  at least one sample, so \<open>batch_scale\<close> is a division by a positive number.\<close>

definition update_parameters :: "LinearRegression \<Rightarrow> real list \<Rightarrow> real list \<Rightarrow> nat \<Rightarrow> LinearRegression" where
  "update_parameters m batch_X batch_y current_batch_size =
     (let (slope_gradient, intercept_gradient) = batch_gradients m batch_X batch_y current_batch_size;
          batch_scale = 1 / real current_batch_size
      in m\<lparr>slope := slope m - learning_rate m * (slope_gradient * batch_scale),
            intercept := intercept m - learning_rate m * (intercept_gradient * batch_scale)\<rparr>)"

text \<open>One pass of the body of the mini-batch loop, at \<open>batch_start\<close>: the size of the
  batch, the copy of the batch out of \<open>X\<close> and \<open>y\<close> through the shuffled indices (the
  pre-allocated batch vectors keep stale entries beyond \<open>current_batch_size\<close>, which nothing
  reads), then the gradients and the update.\<close>

definition current_batch_size_at :: "LinearRegression \<Rightarrow> real list \<Rightarrow> nat \<Rightarrow> nat" where
  "current_batch_size_at m X batch_start = min (nat (batch_size m)) (length X - batch_start)"

definition prepare_batch :: "real list \<Rightarrow> nat list \<Rightarrow> nat \<Rightarrow> nat \<Rightarrow> real list" where
  "prepare_batch v indices batch_start current_batch_size =
     map (\<lambda>i. v ! (indices ! (batch_start + i))) [0..<current_batch_size]"

definition batch_step :: "LinearRegression \<Rightarrow> real list \<Rightarrow> real list \<Rightarrow> nat list \<Rightarrow> nat \<Rightarrow> LinearRegression" where
  "batch_step m X y indices batch_start =
     (let current_batch_size = current_batch_size_at m X batch_start;
          batch_X = prepare_batch X indices batch_start current_batch_size;
          batch_y = prepare_batch y indices batch_start current_batch_size
      in update_parameters m batch_X batch_y current_batch_size)"

subsection \<open>\<open>fit\<close> with the special values of \<open>double\<close>\<close>

text \<open>
  The early-stopping test of \<open>fit\<close> asks whether \<open>best_mse\<close> is finite, so the loop of \<open>fit\<close>
  is modelled with the values a \<open>double\<close> can take: a finite number, the two infinities and
  NaN. Finite results are exact (no rounding); a result beyond the largest finite double,
  \<open>DBL_MAX = (2 - 1 / 2 ^ 52) * 2 ^ 1023\<close>, is the infinity of its sign. The operations follow
  IEEE 754 on the special values (signed zeros apart).
\<close>

datatype double = Finite real | PosInf | NegInf | NaN

definition DBL_MAX :: real where
  "DBL_MAX = (2 - 1 / 2 ^ 52) * 2 ^ 1023"

definition to_double :: "real \<Rightarrow> double" where
  "to_double x = (if DBL_MAX < x then PosInf else if x < - DBL_MAX then NegInf else Finite x)"

text \<open>\<open>std::isfinite\<close>.\<close>

fun is_finite :: "double \<Rightarrow> bool" where
  "is_finite (Finite x) = True"
| "is_finite PosInf = False"
| "is_finite NegInf = False"
| "is_finite NaN = False"

fun dneg :: "double \<Rightarrow> double" where
  "dneg (Finite x) = Finite (- x)"
| "dneg PosInf = NegInf"
| "dneg NegInf = PosInf"
| "dneg NaN = NaN"

text \<open>\<open>a + b\<close>: NaN if an operand is NaN or the operands are opposite infinities; an
  infinity if one operand is; the sum, or the infinity it overflows to, otherwise.\<close>

fun dadd :: "double \<Rightarrow> double \<Rightarrow> double" where
  "dadd (Finite x) (Finite y) = to_double (x + y)"
| "dadd NaN b = NaN"
| "dadd a NaN = NaN"
| "dadd PosInf NegInf = NaN"
| "dadd NegInf PosInf = NaN"
| "dadd PosInf b = PosInf"
| "dadd a PosInf = PosInf"
| "dadd NegInf b = NegInf"
| "dadd a NegInf = NegInf"

definition dsub :: "double \<Rightarrow> double \<Rightarrow> double" where
  "dsub a b = dadd a (dneg b)"

text \<open>The sign of a value that is not NaN: 1, -1, or 0 for zero.\<close>

fun sign_of :: "double \<Rightarrow> int" where
  "sign_of (Finite x) = (if 0 < x then 1 else if x < 0 then - 1 else 0)"
| "sign_of PosInf = 1"
| "sign_of NegInf = - 1"
| "sign_of NaN = 0"

text \<open>\<open>a * b\<close>: NaN if an operand is NaN or the product is infinity times zero; with an
  infinite operand, the infinity of the product of the signs; the product, or the infinity
  it overflows to, otherwise.\<close>

fun dmul :: "double \<Rightarrow> double \<Rightarrow> double" where
  "dmul (Finite x) (Finite y) = to_double (x * y)"
| "dmul NaN b = NaN"
| "dmul a NaN = NaN"
| "dmul a b =
     (if sign_of a * sign_of b = 0 then NaN
      else if 0 < sign_of a * sign_of b then PosInf else NegInf)"

text \<open>\<open>a / n\<close> for a size \<open>n\<close> converted to \<open>double\<close>.\<close>

fun ddiv_size :: "double \<Rightarrow> nat \<Rightarrow> double" where
  "ddiv_size (Finite x) n =
     (if n = 0 then (if 0 < x then PosInf else if x < 0 then NegInf else NaN)
      else to_double (x / real n))"
| "ddiv_size PosInf n = PosInf"
| "ddiv_size NegInf n = NegInf"
| "ddiv_size NaN n = NaN"

text \<open>\<open>a < b\<close> and \<open>a > b\<close>: false as soon as an operand is NaN.\<close>

fun dless :: "double \<Rightarrow> double \<Rightarrow> bool" where
  "dless (Finite x) (Finite y) = (x < y)"
| "dless NaN b = False"
| "dless a NaN = False"
| "dless a NegInf = False"
| "dless PosInf b = False"
| "dless NegInf b = True"
| "dless a PosInf = True"

definition dgreater :: "double \<Rightarrow> double \<Rightarrow> bool" where
  "dgreater a b = dless b a"

text \<open>\<open>std::max(a, b)\<close>, which is \<open>(a < b) ? b : a\<close>.\<close>

definition std_max :: "double \<Rightarrow> double \<Rightarrow> double" where
  "std_max a b = (if dless a b then b else a)"

text \<open>The two members that \<open>fit\<close> assigns, as doubles. The data \<open>X\<close>, \<open>y\<close> and the learning
  rate are finite numbers.\<close>

record parameters =
  slope_d :: double
  intercept_d :: double

text \<open>\<open>slope * x + intercept\<close>.\<close>

definition predict_d :: "parameters \<Rightarrow> real \<Rightarrow> double" where
  "predict_d p x = dadd (dmul (slope_d p) (Finite x)) (intercept_d p)"

text \<open>The gradient loop and the parameter update of a mini-batch (lines 62 to 78 of the
  source), the sums taken in the order of the index.\<close>

definition batch_gradients_d :: "parameters \<Rightarrow> real list \<Rightarrow> real list \<Rightarrow> nat \<Rightarrow> double \<times> double" where
  "batch_gradients_d p batch_X batch_y current_batch_size =
     fold (\<lambda>i (slope_gradient, intercept_gradient).
             let prediction = predict_d p (batch_X ! i);
                 error = dsub prediction (Finite (batch_y ! i))
             in (dadd slope_gradient (dmul error (Finite (batch_X ! i))),
                 dadd intercept_gradient error))
          [0..<current_batch_size] (Finite 0, Finite 0)"

definition update_parameters_d :: "real \<Rightarrow> parameters \<Rightarrow> real list \<Rightarrow> real list \<Rightarrow> nat \<Rightarrow> parameters" where
  "update_parameters_d lr p batch_X batch_y current_batch_size =
     (let (slope_gradient, intercept_gradient) = batch_gradients_d p batch_X batch_y current_batch_size;
          batch_scale = ddiv_size (Finite 1) current_batch_size
      in p\<lparr>slope_d := dsub (slope_d p) (dmul (Finite lr) (dmul slope_gradient batch_scale)),
            intercept_d := dsub (intercept_d p) (dmul (Finite lr) (dmul intercept_gradient batch_scale))\<rparr>)"

text \<open>The body of the mini-batch loop at \<open>batch_start\<close>; \<open>bs\<close> is \<open>batch_size\<close> as a size.\<close>

definition batch_step_d :: "real \<Rightarrow> nat \<Rightarrow> parameters \<Rightarrow> real list \<Rightarrow> real list \<Rightarrow> nat list \<Rightarrow> nat \<Rightarrow> parameters" where
  "batch_step_d lr bs p X y indices batch_start =
     (let n_samples = length X;
          current_batch_size = min bs (n_samples - batch_start);
          batch_X = prepare_batch X indices batch_start current_batch_size;
          batch_y = prepare_batch y indices batch_start current_batch_size
      in update_parameters_d lr p batch_X batch_y current_batch_size)"

text \<open>The mini-batch loop \<open>for (batch_start = 0; batch_start < n_samples; batch_start += batch_size)\<close>.
  \<open>fit\<close> has rejected a non-positive batch size before the loop; a zero step ends the loop
  here, which keeps the function total.\<close>

function process_batches :: "real \<Rightarrow> nat \<Rightarrow> real list \<Rightarrow> real list \<Rightarrow> nat list \<Rightarrow> nat \<Rightarrow> parameters \<Rightarrow> parameters" where
  "process_batches lr bs X y indices batch_start p =
     (if batch_start < length X \<and> 0 < bs
      then process_batches lr bs X y indices (batch_start + bs)
             (batch_step_d lr bs p X y indices batch_start)
      else p)"
  by pat_completeness auto
termination
  by (relation "measure (\<lambda>(lr, bs, X, y, indices, batch_start, p). length X - batch_start)") auto

declare process_batches.simps [simp del]

text \<open>\<open>mean_squared_error\<close> on the parameters of the loop: the length check, the empty case,
  the sum of the squares \<open>std::pow(prediction - y[i], 2)\<close>, the division by the size.\<close>

definition mean_squared_error_d :: "parameters \<Rightarrow> real list \<Rightarrow> real list \<Rightarrow> error + double" where
  "mean_squared_error_d p X y =
     (if length X \<noteq> length y then Inl InvalidArgument
      else if X = [] then Inr (Finite 0)
      else Inr (ddiv_size
                  (fold (\<lambda>i mse_sum.
                           let prediction = predict_d p (X ! i);
                               residual = dsub prediction (Finite (y ! i))
                           in dadd mse_sum (dmul residual residual)) [0..<length X] (Finite 0))
                  (length X)))"

text \<open>The early-stopping bookkeeping at the end of an epoch, lines 84 to 96 of the source:
  \<open>improvement\<close> and \<open>relative_threshold\<close> are computed first, then the test
  \<open>!std::isfinite(best_mse) || improvement > relative_threshold\<close>. The result says whether
  the loop breaks.\<close>

record stopping =
  best_mse :: double
  no_improvement_count :: int

definition tolerance :: real where "tolerance = 1 / 10 ^ 6"
definition patience :: int where "patience = 5"

definition early_stopping_check :: "double \<Rightarrow> stopping \<Rightarrow> stopping \<times> bool" where
  "early_stopping_check epoch_mse st =
     (let improvement = dsub (best_mse st) epoch_mse;
          relative_threshold = dmul (Finite tolerance) (std_max (Finite 1) (best_mse st))
      in if \<not> is_finite (best_mse st) \<or> dgreater improvement relative_threshold
         then (st\<lparr>best_mse := epoch_mse, no_improvement_count := 0\<rparr>, False)
         else let st1 = st\<lparr>no_improvement_count := no_improvement_count st + 1\<rparr>
              in (st1, no_improvement_count st1 \<ge> patience))"

text \<open>The state of the epoch loop. \<open>history\<close> is not in the source: it records, for each
  epoch that ran, the parameters after the epoch's mini-batches, the full-dataset MSE
  computed from them and the bookkeeping after the check, oldest first.\<close>

record fit_state =
  params :: parameters
  indices_of :: "nat list"
  stopping_of :: stopping
  history :: "(parameters \<times> double \<times> stopping) list"

text \<open>One epoch: shuffle, the mini-batches, the full-dataset MSE (whose exception, if it
  threw, would leave \<open>fit\<close>), the early-stopping check.\<close>

definition run_epoch :: "(nat \<Rightarrow> nat list \<Rightarrow> nat list) \<Rightarrow> real \<Rightarrow> nat \<Rightarrow> real list \<Rightarrow> real list \<Rightarrow> int \<Rightarrow> fit_state \<Rightarrow> error + fit_state \<times> bool" where
  "run_epoch shuffle lr bs X y iter s =
     (let indices = shuffle (nat iter) (indices_of s);
          p = process_batches lr bs X y indices 0 (params s)
      in case mean_squared_error_d p X y of
           Inl e \<Rightarrow> Inl e
         | Inr epoch_mse \<Rightarrow>
             (case early_stopping_check epoch_mse (stopping_of s) of
                (st, stop) \<Rightarrow>
                  Inr (\<lparr>params = p, indices_of = indices, stopping_of = st,
                        history = history s @ [(p, epoch_mse, st)]\<rparr>, stop)))"

text \<open>The epoch loop \<open>for (int iter = 0; iter < max_iterations; ++iter)\<close> with its \<open>break\<close>.\<close>

function fit_epochs :: "(nat \<Rightarrow> nat list \<Rightarrow> nat list) \<Rightarrow> real \<Rightarrow> nat \<Rightarrow> real list \<Rightarrow> real list \<Rightarrow> int \<Rightarrow> int \<Rightarrow> fit_state \<Rightarrow> error + fit_state" where
  "fit_epochs shuffle lr bs X y max_iter iter s =
     (if iter < max_iter then
        (case run_epoch shuffle lr bs X y iter s of
           Inl e \<Rightarrow> Inl e
         | Inr (s1, stop) \<Rightarrow>
             if stop then Inr s1 else fit_epochs shuffle lr bs X y max_iter (iter + 1) s1)
      else Inr s)"
  by pat_completeness auto
termination
  by (relation "measure (\<lambda>(shuffle, lr, bs, X, y, max_iter, iter, s). nat (max_iter - iter))") simp_all

declare fit_epochs.simps [simp del]

text \<open>\<open>fit\<close> with the state of its loop at the end, and \<open>fit\<close> as the caller sees it: the
  slope and the intercept that the object holds afterwards. The loop starts from the
  object's slope and intercept, with \<open>best_mse\<close> at \<open>+infinity\<close> and the counter at 0.\<close>

definition fit_run :: "(nat \<Rightarrow> nat list \<Rightarrow> nat list) \<Rightarrow> LinearRegression \<Rightarrow> real list \<Rightarrow> real list \<Rightarrow> error + fit_state" where
  "fit_run shuffle m X y =
     (if length X \<noteq> length y then Inl InvalidArgument
      else if X = [] then Inl InvalidArgument
      else if batch_size m \<le> 0 then Inl InvalidArgument
      else fit_epochs shuffle (learning_rate m) (nat (batch_size m)) X y (max_iterations m) 0
             \<lparr>params = \<lparr>slope_d = Finite (slope m), intercept_d = Finite (intercept m)\<rparr>,
              indices_of = [0..<length X],
              stopping_of = \<lparr>best_mse = PosInf, no_improvement_count = 0\<rparr>,
              history = []\<rparr>)"

definition fit :: "(nat \<Rightarrow> nat list \<Rightarrow> nat list) \<Rightarrow> LinearRegression \<Rightarrow> real list \<Rightarrow> real list \<Rightarrow> error + parameters" where
  "fit shuffle m X y = map_sum id params (fit_run shuffle m X y)"

section \<open>neural\_network.cpp\<close>

type_synonym Vector = "real list"
type_synonym Matrix = "real list list"

text \<open>
  The members of the class, without the trailing underscore of the source
  (\<open>learning_rate_\<close> is \<open>nn_learning_rate\<close>, the name \<open>learning_rate\<close> being taken).
  \<open>layer_outputs\<close> and \<open>layer_inputs\<close> are the transient state of the forward pass.
  A method that can throw returns its result together with the object as the call leaves
  it, so that what a failed call has changed is visible.

  Reads \<open>v[i]\<close> are written \<open>v ! i\<close>. They are in range whenever the object satisfies the
  dimension invariant of the class (\<open>wf_network\<close> below), which the theorems assume or
  establish; outside of it the C++ has undefined behaviour and the model says nothing.
\<close>

record NeuralNetwork =
  layer_sizes :: "nat list"
  weights :: "Matrix list"
  biases :: "Vector list"
  nn_learning_rate :: real
  layer_outputs :: "Vector list"
  layer_inputs :: "Vector list"

subsection \<open>Matrix and vector helpers\<close>

text \<open>\<open>multiply(Matrix, Vector)\<close>: throws on an empty matrix or when the first row's size
  differs from the vector's; row \<open>i\<close> of the result sums \<open>matrix[i][j] * vector[j]\<close> over
  \<open>j < cols\<close>.\<close>

definition multiply_mv :: "Matrix \<Rightarrow> Vector \<Rightarrow> error + Vector" where
  "multiply_mv matrix vector =
     (if matrix = [] \<or> length (matrix ! 0) \<noteq> length vector then Inl InvalidArgument
      else let rows = length matrix; cols = length (matrix ! 0)
           in Inr (map (\<lambda>i. fold (\<lambda>j acc. acc + matrix ! i ! j * vector ! j) [0..<cols] 0)
                       [0..<rows]))"

definition add :: "Vector \<Rightarrow> Vector \<Rightarrow> error + Vector" where
  "add vec1 vec2 =
     (if length vec1 \<noteq> length vec2 then Inl InvalidArgument
      else Inr (map2 (+) vec1 vec2))"

definition subtract :: "Vector \<Rightarrow> Vector \<Rightarrow> error + Vector" where
  "subtract vec1 vec2 =
     (if length vec1 \<noteq> length vec2 then Inl InvalidArgument
      else Inr (map2 (-) vec1 vec2))"

definition elementwise_multiply :: "Vector \<Rightarrow> Vector \<Rightarrow> error + Vector" where
  "elementwise_multiply vec1 vec2 =
     (if length vec1 \<noteq> length vec2 then Inl InvalidArgument
      else Inr (map2 (*) vec1 vec2))"

text \<open>\<open>transpose\<close>: the empty matrix stays empty; otherwise the result has
  \<open>matrix[0].size()\<close> rows and \<open>matrix.size()\<close> columns.\<close>

definition transpose_matrix :: "Matrix \<Rightarrow> Matrix" where
  "transpose_matrix matrix =
     (if matrix = [] then []
      else let rows = length matrix; cols = length (matrix ! 0)
           in map (\<lambda>j. map (\<lambda>i. matrix ! i ! j) [0..<rows]) [0..<cols])"

definition outer_product :: "Vector \<Rightarrow> Vector \<Rightarrow> Matrix" where
  "outer_product vec1 vec2 =
     (let rows = length vec1; cols = length vec2
      in map (\<lambda>i. map (\<lambda>j. vec1 ! i * vec2 ! j) [0..<cols]) [0..<rows])"

text \<open>\<open>multiply(Matrix, double)\<close> and \<open>multiply(Vector, double)\<close>.\<close>

definition multiply_ms :: "Matrix \<Rightarrow> real \<Rightarrow> Matrix" where
  "multiply_ms mat scalar = map (map (\<lambda>val. val * scalar)) mat"

definition multiply_vs :: "Vector \<Rightarrow> real \<Rightarrow> Vector" where
  "multiply_vs vec scalar = map (\<lambda>val. val * scalar) vec"

text \<open>\<open>subtract(Matrix, Matrix)\<close>: the check compares the number of rows and the size of
  the first rows; the result is a copy of \<open>mat1\<close> whose row \<open>i\<close> has \<open>mat2[i]\<close> subtracted.\<close>

definition subtract_m :: "Matrix \<Rightarrow> Matrix \<Rightarrow> error + Matrix" where
  "subtract_m mat1 mat2 =
     (if length mat1 \<noteq> length mat2 \<or> (mat1 \<noteq> [] \<and> length (mat1 ! 0) \<noteq> length (mat2 ! 0))
      then Inl InvalidArgument
      else Inr (map (\<lambda>i. map2 (-) (mat1 ! i) (mat2 ! i)) [0..<length mat1]))"

subsection \<open>Activation and loss\<close>

definition sigmoid :: "real \<Rightarrow> real" where
  "sigmoid x = 1 / (1 + exp (- x))"

definition sigmoid_derivative :: "real \<Rightarrow> real" where
  "sigmoid_derivative x = (let sig = sigmoid x in sig * (1 - sig))"

text \<open>The static \<open>mean_squared_error\<close> of the network class. On two empty vectors the
  source divides 0.0 by 0, which is NaN and no exception: that is \<open>Inr None\<close>.\<close>

definition nn_mean_squared_error :: "Vector \<Rightarrow> Vector \<Rightarrow> error + real option" where
  "nn_mean_squared_error predicted target =
     (if length predicted \<noteq> length target then Inl InvalidArgument
      else let sum_sq_error =
                 fold (\<lambda>i sum_sq_error.
                         let error = predicted ! i - target ! i
                         in sum_sq_error + error * error) [0..<length predicted] 0
           in Inr (if predicted = [] then None
                   else Some (sum_sq_error / real (length predicted))))"

definition mean_squared_error_derivative :: "Vector \<Rightarrow> Vector \<Rightarrow> error + Vector" where
  "mean_squared_error_derivative predicted target =
     (if length predicted \<noteq> length target then Inl InvalidArgument
      else subtract predicted target)"

subsection \<open>Construction\<close>

text \<open>The two random distributions are parameters: \<open>dis i r c\<close> is the draw from
  \<open>U(-0.5, 0.5)\<close> used for \<open>weights_[i][r][c]\<close> and \<open>bias_dis i r\<close> the draw from
  \<open>U(0, 0.1)\<close> used for \<open>biases_[i][r]\<close>.\<close>

definition initialize_weights_biases ::
    "(nat \<Rightarrow> nat \<Rightarrow> nat \<Rightarrow> real) \<Rightarrow> (nat \<Rightarrow> nat \<Rightarrow> real) \<Rightarrow> NeuralNetwork \<Rightarrow> NeuralNetwork" where
  "initialize_weights_biases dis bias_dis nn =
     nn\<lparr>weights :=
          map (\<lambda>i. let rows = layer_sizes nn ! (i + 1); cols = layer_sizes nn ! i
                   in map (\<lambda>r. map (\<lambda>c. dis i r c * sqrt (1 / real cols)) [0..<cols]) [0..<rows])
              [0..<length (layer_sizes nn) - 1],
        biases :=
          map (\<lambda>i. let rows = layer_sizes nn ! (i + 1)
                   in map (\<lambda>r. bias_dis i r) [0..<rows])
              [0..<length (layer_sizes nn) - 1]\<rparr>"

definition new_NeuralNetwork ::
    "(nat \<Rightarrow> nat \<Rightarrow> nat \<Rightarrow> real) \<Rightarrow> (nat \<Rightarrow> nat \<Rightarrow> real) \<Rightarrow> nat list \<Rightarrow> real \<Rightarrow> error + NeuralNetwork" where
  "new_NeuralNetwork dis bias_dis sizes lr =
     (if length sizes < 2 then Inl InvalidArgument
      else Inr (initialize_weights_biases dis bias_dis
                  \<lparr>layer_sizes = sizes, weights = [], biases = [], nn_learning_rate = lr,
                   layer_outputs = [], layer_inputs = []\<rparr>))"

subsection \<open>Forward pass and prediction\<close>

text \<open>The two statements that \<open>forward_pass\<close> and \<open>predict\<close> share in their loop bodies:
  \<open>z = add(multiply(weights_[i], current_output), biases_[i])\<close>, and the activation, which
  is the sigmoid while \<open>i < layer_sizes_.size() - 2\<close> and the identity after.\<close>

definition weighted_input :: "NeuralNetwork \<Rightarrow> nat \<Rightarrow> Vector \<Rightarrow> error + Vector" where
  "weighted_input nn i current_output =
     (case multiply_mv (weights nn ! i) current_output of
        Inl e \<Rightarrow> Inl e
      | Inr wa \<Rightarrow> add wa (biases nn ! i))"

definition activation :: "NeuralNetwork \<Rightarrow> nat \<Rightarrow> Vector \<Rightarrow> Vector" where
  "activation nn i z = (if i < length (layer_sizes nn) - 2 then map sigmoid z else z)"

text \<open>The loop of \<open>forward_pass\<close> over the layer transitions still to do.\<close>

fun forward_layers :: "nat list \<Rightarrow> Vector \<Rightarrow> NeuralNetwork \<Rightarrow> (error + Vector) \<times> NeuralNetwork" where
  "forward_layers [] current_output nn = (Inr current_output, nn)"
| "forward_layers (i # rest) current_output nn =
     (case weighted_input nn i current_output of
        Inl e \<Rightarrow> (Inl e, nn)
      | Inr z \<Rightarrow>
          forward_layers rest (activation nn i z)
            (nn\<lparr>layer_inputs := (layer_inputs nn)[i := z],
                layer_outputs := (layer_outputs nn)[i + 1 := activation nn i z]\<rparr>))"

definition forward_pass :: "NeuralNetwork \<Rightarrow> Vector \<Rightarrow> (error + Vector) \<times> NeuralNetwork" where
  "forward_pass nn input =
     (if length input \<noteq> layer_sizes nn ! 0 then (Inl InvalidArgument, nn)
      else forward_layers [0..<length (layer_sizes nn) - 1] input
             (nn\<lparr>layer_outputs := (replicate (length (layer_sizes nn)) [])[0 := input],
                 layer_inputs := replicate (length (layer_sizes nn) - 1) []\<rparr>))"

text \<open>The loop of \<open>predict\<close>: it assigns no member.\<close>

fun predict_layers :: "NeuralNetwork \<Rightarrow> nat list \<Rightarrow> Vector \<Rightarrow> error + Vector" where
  "predict_layers nn [] current_output = Inr current_output"
| "predict_layers nn (i # rest) current_output =
     (case weighted_input nn i current_output of
        Inl e \<Rightarrow> Inl e
      | Inr z \<Rightarrow> predict_layers nn rest (activation nn i z))"

definition predict :: "NeuralNetwork \<Rightarrow> Vector \<Rightarrow> (error + Vector) \<times> NeuralNetwork" where
  "predict nn input =
     (if length input \<noteq> layer_sizes nn ! 0 then (Inl InvalidArgument, nn)
      else (predict_layers nn [0..<length (layer_sizes nn) - 1] input, nn))"

subsection \<open>Backpropagation\<close>

text \<open>Step 3, the loop \<open>for (int i = num_layers - 2; i > 0; --i)\<close> over the indices still
  to do: \<open>deltas[i - 1]\<close> from \<open>weights_[i]\<close>, \<open>deltas[i]\<close> and \<open>layer_inputs_[i - 1]\<close>.\<close>

fun propagate_deltas :: "NeuralNetwork \<Rightarrow> nat list \<Rightarrow> Vector list \<Rightarrow> error + Vector list" where
  "propagate_deltas nn [] deltas = Inr deltas"
| "propagate_deltas nn (i # rest) deltas =
     (case multiply_mv (transpose_matrix (weights nn ! i)) (deltas ! i) of
        Inl e \<Rightarrow> Inl e
      | Inr propagated_delta \<Rightarrow>
         (case elementwise_multiply propagated_delta
                 (map sigmoid_derivative (layer_inputs nn ! (i - 1))) of
            Inl e \<Rightarrow> Inl e
          | Inr d \<Rightarrow> propagate_deltas nn rest (deltas[i - 1 := d])))"

text \<open>Steps 2 and 3: all the deltas, from the state the forward pass has left.\<close>

definition compute_deltas :: "NeuralNetwork \<Rightarrow> Vector \<Rightarrow> Vector \<Rightarrow> error + Vector list" where
  "compute_deltas nn predicted_output target =
     (let num_layers = length (layer_sizes nn);
          deltas = replicate (num_layers - 1) []
      in case mean_squared_error_derivative predicted_output target of
           Inl e \<Rightarrow> Inl e
         | Inr error_derivative \<Rightarrow>
             propagate_deltas nn (rev [1..<num_layers - 1])
               (deltas[length deltas - 1 := error_derivative]))"

text \<open>Step 4, the update loop over the layer transitions still to do.\<close>

fun update_layers :: "nat list \<Rightarrow> Vector list \<Rightarrow> NeuralNetwork \<Rightarrow> (error + unit) \<times> NeuralNetwork" where
  "update_layers [] deltas nn = (Inr (), nn)"
| "update_layers (i # rest) deltas nn =
     (case subtract_m (weights nn ! i)
             (multiply_ms (outer_product (deltas ! i) (layer_outputs nn ! i)) (nn_learning_rate nn)) of
        Inl e \<Rightarrow> (Inl e, nn)
      | Inr W \<Rightarrow>
         (case subtract (biases nn ! i) (multiply_vs (deltas ! i) (nn_learning_rate nn)) of
            Inl e \<Rightarrow> (Inl e, nn\<lparr>weights := (weights nn)[i := W]\<rparr>)
          | Inr b \<Rightarrow>
              update_layers rest deltas
                (nn\<lparr>weights := (weights nn)[i := W], biases := (biases nn)[i := b]\<rparr>)))"

definition backpropagate :: "NeuralNetwork \<Rightarrow> Vector \<Rightarrow> Vector \<Rightarrow> (error + unit) \<times> NeuralNetwork" where
  "backpropagate nn input target =
     (case forward_pass nn input of
        (Inl e, nn1) \<Rightarrow> (Inl e, nn1)
      | (Inr predicted_output, nn1) \<Rightarrow>
          if length target \<noteq> last (layer_sizes nn1) then (Inl InvalidArgument, nn1)
          else (case compute_deltas nn1 predicted_output target of
                  Inl e \<Rightarrow> (Inl e, nn1)
                | Inr deltas \<Rightarrow> update_layers [0..<length (layer_sizes nn1) - 1] deltas nn1))"

definition train :: "NeuralNetwork \<Rightarrow> Vector \<Rightarrow> Vector \<Rightarrow> (error + unit) \<times> NeuralNetwork" where
  "train nn input target = backpropagate nn input target"

subsection \<open>Training for several epochs\<close>

text \<open>
  The object and the two things \<open>train_for_epochs\<close> keeps beside it: the index vector,
  which every epoch shuffles again, and the lines \<open>epoch=..,mse=..\<close> written to standard
  output so far. A \<open>double\<close> that may be NaN is a \<^typ>\<open>real option\<close>, \<open>None\<close> for NaN.
\<close>

record training =
  network :: NeuralNetwork
  training_indices :: "nat list"
  reports :: "(int \<times> real option) list"

text \<open>The inner loop: one \<open>backpropagate\<close> per index, in the order given.\<close>

fun train_samples :: "Vector list \<Rightarrow> Vector list \<Rightarrow> nat list \<Rightarrow> NeuralNetwork \<Rightarrow> (error + unit) \<times> NeuralNetwork" where
  "train_samples inputs targets [] nn = (Inr (), nn)"
| "train_samples inputs targets (idx # rest) nn =
     (case backpropagate nn (inputs ! idx) (targets ! idx) of
        (Inl e, nn1) \<Rightarrow> (Inl e, nn1)
      | (Inr u, nn1) \<Rightarrow> train_samples inputs targets rest nn1)"

definition nan_add :: "real option \<Rightarrow> real option \<Rightarrow> real option" where
  "nan_add a b = (case (a, b) of (Some x, Some y) \<Rightarrow> Some (x + y) | _ \<Rightarrow> None)"

text \<open>The loss loop of a report: \<open>current_mse += mean_squared_error(predict(inputs[i]), targets[i])\<close>.\<close>

fun dataset_mse_sum :: "Vector list \<Rightarrow> Vector list \<Rightarrow> nat list \<Rightarrow> real option \<Rightarrow> NeuralNetwork \<Rightarrow> (error + real option) \<times> NeuralNetwork" where
  "dataset_mse_sum inputs targets [] current_mse nn = (Inr current_mse, nn)"
| "dataset_mse_sum inputs targets (i # rest) current_mse nn =
     (case predict nn (inputs ! i) of
        (Inl e, nn1) \<Rightarrow> (Inl e, nn1)
      | (Inr prediction, nn1) \<Rightarrow>
         (case nn_mean_squared_error prediction (targets ! i) of
            Inl e \<Rightarrow> (Inl e, nn1)
          | Inr mse \<Rightarrow> dataset_mse_sum inputs targets rest (nan_add current_mse mse) nn1))"

text \<open>The body of the epoch loop. The report test computes \<open>(epoch + 1) % report_every_n_epochs\<close>
  first: with a zero divisor that is an integer division by zero, which C++ leaves undefined
  and which is the error \<open>DivisionByZero\<close> here. The test compares the remainder with 0 only,
  so the sign convention of \<open>%\<close> does not matter.\<close>

definition training_epoch ::
    "(nat \<Rightarrow> nat list \<Rightarrow> nat list) \<Rightarrow> Vector list \<Rightarrow> Vector list \<Rightarrow> int \<Rightarrow> int \<Rightarrow> int \<Rightarrow> training
      \<Rightarrow> (error + unit) \<times> training" where
  "training_epoch shuffle inputs targets epochs report_every_n_epochs epoch t =
     (let n_samples = length inputs;
          shuffled = shuffle (nat epoch) (training_indices t)
      in case train_samples inputs targets (map (\<lambda>i. shuffled ! i) [0..<n_samples]) (network t) of
           (Inl e, nn1) \<Rightarrow> (Inl e, t\<lparr>network := nn1, training_indices := shuffled\<rparr>)
         | (Inr u, nn1) \<Rightarrow>
             let t1 = t\<lparr>network := nn1, training_indices := shuffled\<rparr>
             in if report_every_n_epochs = 0 then (Inl DivisionByZero, t1)
                else if (epoch + 1) mod report_every_n_epochs = 0 \<or> epoch = epochs - 1 then
                  (case dataset_mse_sum inputs targets [0..<n_samples] (Some 0) nn1 of
                     (Inl e, nn2) \<Rightarrow> (Inl e, t1\<lparr>network := nn2\<rparr>)
                   | (Inr current_mse, nn2) \<Rightarrow>
                       (Inr (), t1\<lparr>network := nn2,
                                  reports := reports t1 @
                                    [(epoch + 1, map_option (\<lambda>v. v / real n_samples) current_mse)]\<rparr>))
                else (Inr (), t1))"

function epochs_loop ::
    "(nat \<Rightarrow> nat list \<Rightarrow> nat list) \<Rightarrow> Vector list \<Rightarrow> Vector list \<Rightarrow> int \<Rightarrow> int \<Rightarrow> int \<Rightarrow> training
      \<Rightarrow> (error + unit) \<times> training" where
  "epochs_loop shuffle inputs targets epochs report_every_n_epochs epoch t =
     (if epoch < epochs then
        (case training_epoch shuffle inputs targets epochs report_every_n_epochs epoch t of
           (Inl e, t1) \<Rightarrow> (Inl e, t1)
         | (Inr u, t1) \<Rightarrow>
             epochs_loop shuffle inputs targets epochs report_every_n_epochs (epoch + 1) t1)
      else (Inr (), t))"
  by pat_completeness auto
termination
  by (relation "measure (\<lambda>(shuffle, inputs, targets, epochs, r, epoch, t). nat (epochs - epoch))")
     simp_all

text \<open>The last loop: one entry per input, \<open>prediction[0]\<close>, or NaN for an empty prediction.\<close>

fun collect_predictions :: "Vector list \<Rightarrow> real option list \<Rightarrow> NeuralNetwork \<Rightarrow> (error + real option list) \<times> NeuralNetwork" where
  "collect_predictions [] final_predictions nn = (Inr final_predictions, nn)"
| "collect_predictions (input # rest) final_predictions nn =
     (case predict nn input of
        (Inl e, nn1) \<Rightarrow> (Inl e, nn1)
      | (Inr prediction, nn1) \<Rightarrow>
          collect_predictions rest
            (final_predictions @ [if prediction \<noteq> [] then Some (prediction ! 0) else None]) nn1)"

definition train_for_epochs ::
    "(nat \<Rightarrow> nat list \<Rightarrow> nat list) \<Rightarrow> NeuralNetwork \<Rightarrow> Vector list \<Rightarrow> Vector list \<Rightarrow> int \<Rightarrow> int
      \<Rightarrow> (error + real option list) \<times> training" where
  "train_for_epochs shuffle nn inputs targets epochs report_every_n_epochs =
     (if inputs = [] \<or> length inputs \<noteq> length targets
      then (Inl InvalidArgument, \<lparr>network = nn, training_indices = [], reports = []\<rparr>)
      else case epochs_loop shuffle inputs targets epochs report_every_n_epochs 0
                  \<lparr>network = nn, training_indices = [0..<length inputs], reports = []\<rparr> of
             (Inl e, t) \<Rightarrow> (Inl e, t)
           | (Inr u, t) \<Rightarrow>
              (case collect_predictions inputs [] (network t) of
                 (Inl e, nn1) \<Rightarrow> (Inl e, t\<lparr>network := nn1\<rparr>)
               | (Inr final_predictions, nn1) \<Rightarrow> (Inr final_predictions, t\<lparr>network := nn1\<rparr>)))"

section \<open>Definitions used to state the properties\<close>

subsection \<open>Linear regression\<close>

text \<open>The sample mean and the closed-form least-squares slope, as formulas over the indices.\<close>

definition spec_mean :: "real list \<Rightarrow> real" where
  "spec_mean xs = (\<Sum>i<length xs. xs ! i) / real (length xs)"

definition spec_slope :: "real list \<Rightarrow> real list \<Rightarrow> real" where
  "spec_slope X y =
     (let den = (\<Sum>i<length X. (X ! i - spec_mean X) ^ 2)
      in if \<bar>den\<bar> < 1 / 10 ^ 10 then 0
         else (\<Sum>i<length X. (X ! i - spec_mean X) * (y ! i - spec_mean y)) / den)"

text \<open>The mean-squared loss of a batch, as a function of the slope (the intercept fixed) and
  as a function of the intercept (the slope fixed).\<close>

definition batch_mse_of_slope :: "real list \<Rightarrow> real list \<Rightarrow> real \<Rightarrow> real \<Rightarrow> real" where
  "batch_mse_of_slope batch_X batch_y b s =
     (\<Sum>i<length batch_X. (s * batch_X ! i + b - batch_y ! i) ^ 2) / real (length batch_X)"

definition batch_mse_of_intercept :: "real list \<Rightarrow> real list \<Rightarrow> real \<Rightarrow> real \<Rightarrow> real" where
  "batch_mse_of_intercept batch_X batch_y s b = batch_mse_of_slope batch_X batch_y b s"

text \<open>The batch that the mini-batch step at \<open>batch_start\<close> copies out of a data vector \<open>v\<close>.\<close>

definition batch_at :: "LinearRegression \<Rightarrow> real list \<Rightarrow> real list \<Rightarrow> nat list \<Rightarrow> nat \<Rightarrow> real list" where
  "batch_at m X v idx batch_start =
     prepare_batch v idx batch_start (current_batch_size_at m X batch_start)"

definition unit_model :: LinearRegression where
  "unit_model = \<lparr>slope = 1, intercept = 0, learning_rate = 1, max_iterations = 1, batch_size = 1\<rparr>"

text \<open>The test "the improvement over the best exceeds \<open>1e-6 * max(1, best)\<close>", on doubles.\<close>

definition improvement_exceeds :: "double \<Rightarrow> double \<Rightarrow> bool" where
  "improvement_exceeds best mse =
     dgreater (dsub best mse) (dmul (Finite (1 / 10 ^ 6)) (std_max (Finite 1) best))"

text \<open>The early-stopping rule, from the bookkeeping before an epoch's check to the one after
  it: when the best MSE is not finite, or the improvement over it exceeds the threshold, the
  counter is reset to 0 and the epoch's MSE becomes the best; anything else increments the
  counter and keeps the best.\<close>

definition stopping_rule :: "double \<Rightarrow> stopping \<Rightarrow> stopping \<Rightarrow> bool" where
  "stopping_rule mse before after =
     (if \<not> is_finite (best_mse before) \<or> improvement_exceeds (best_mse before) mse
      then after = \<lparr>best_mse = mse, no_improvement_count = 0\<rparr>
      else after = \<lparr>best_mse = best_mse before,
                    no_improvement_count = no_improvement_count before + 1\<rparr>)"

text \<open>The rule without the test for a best MSE that is not finite: a reset when the
  improvement exceeds the threshold, an increment otherwise.\<close>

definition rule_without_finiteness_test :: "double \<Rightarrow> stopping \<Rightarrow> stopping \<Rightarrow> bool" where
  "rule_without_finiteness_test mse before after =
     (if improvement_exceeds (best_mse before) mse
      then after = \<lparr>best_mse = mse, no_improvement_count = 0\<rparr>
      else after = \<lparr>best_mse = best_mse before,
                    no_improvement_count = no_improvement_count before + 1\<rparr>)"

definition initial_stopping :: stopping where
  "initial_stopping = \<lparr>best_mse = PosInf, no_improvement_count = 0\<rparr>"

definition stopping_before :: "(parameters \<times> double \<times> stopping) list \<Rightarrow> nat \<Rightarrow> stopping" where
  "stopping_before h k = (if k = 0 then initial_stopping else snd (snd (h ! (k - 1))))"

text \<open>A history follows the rule when every epoch's entry holds the full-dataset MSE of that
  epoch's parameters, its bookkeeping comes from the one before by the rule, and only the
  last entry can have the counter at 5.\<close>

definition history_follows_rule :: "real list \<Rightarrow> real list \<Rightarrow> (parameters \<times> double \<times> stopping) list \<Rightarrow> bool" where
  "history_follows_rule X y h =
     (\<forall>k\<in>{0..<length h}.
        mean_squared_error_d (fst (h ! k)) X y = Inr (fst (snd (h ! k)))
      \<and> stopping_rule (fst (snd (h ! k))) (stopping_before h k) (snd (snd (h ! k)))
      \<and> (no_improvement_count (snd (snd (h ! k))) \<ge> 5 \<longrightarrow> k = length h - 1))"

definition epoch_invariant :: "real list \<Rightarrow> real list \<Rightarrow> int \<Rightarrow> fit_state \<Rightarrow> bool" where
  "epoch_invariant X y iter s \<longleftrightarrow>
     history_follows_rule X y (history s) \<and> int (length (history s)) = iter
     \<and> stopping_of s = stopping_before (history s) (length (history s))
     \<and> no_improvement_count (stopping_of s) < 5"

text \<open>What a history shows of each epoch: the MSE, the best MSE and the counter after the
  check. And two runs of \<open>fit\<close>, with the shuffle that leaves the indices as they are: one
  that converges and stops early, one whose MSE overflows.\<close>

definition epoch_summary :: "(parameters \<times> double \<times> stopping) list \<Rightarrow> (double \<times> double \<times> int) list" where
  "epoch_summary h = map (\<lambda>(p, mse, st). (mse, best_mse st, no_improvement_count st)) h"

definition converging_run :: "error + fit_state" where
  "converging_run = fit_run (\<lambda>e xs. xs) (new_LinearRegression (9 / 20) 1000 1) [1] [1]"

definition overflowing_run :: "error + fit_state" where
  "overflowing_run = fit_run (\<lambda>e xs. xs) (new_LinearRegression 1 1000 32) [DBL_MAX] [1]"

subsection \<open>Neural network\<close>

text \<open>The dimension invariant of the class: at least two layer sizes, one weight matrix and
  one bias vector per layer transition, \<open>weights[i]\<close> of \<open>layer_sizes[i+1]\<close> rows of
  \<open>layer_sizes[i]\<close> entries, \<open>biases[i]\<close> of \<open>layer_sizes[i+1]\<close> entries.\<close>

definition wf_network :: "NeuralNetwork \<Rightarrow> bool" where
  "wf_network nn \<longleftrightarrow>
     2 \<le> length (layer_sizes nn)
   \<and> length (weights nn) = length (layer_sizes nn) - 1
   \<and> length (biases nn) = length (layer_sizes nn) - 1
   \<and> (\<forall>i\<in>{0..<length (layer_sizes nn) - 1}.
         length (weights nn ! i) = layer_sizes nn ! (i + 1)
       \<and> (\<forall>row\<in>set (weights nn ! i). length row = layer_sizes nn ! i)
       \<and> length (biases nn ! i) = layer_sizes nn ! (i + 1))"

text \<open>Every layer after the input layer has at least one neuron.\<close>

definition later_layers_positive :: "NeuralNetwork \<Rightarrow> bool" where
  "later_layers_positive nn \<longleftrightarrow> (\<forall>i\<in>{1..<length (layer_sizes nn)}. 0 < layer_sizes nn ! i)"

text \<open>Two objects with the same durable state: sizes, weights, biases and learning rate.\<close>

definition same_parameters :: "NeuralNetwork \<Rightarrow> NeuralNetwork \<Rightarrow> bool" where
  "same_parameters nn nn' \<longleftrightarrow>
     layer_sizes nn' = layer_sizes nn \<and> weights nn' = weights nn \<and> biases nn' = biases nn
   \<and> nn_learning_rate nn' = nn_learning_rate nn"

text \<open>
  The mathematics of the forward pass, layer by layer: \<open>a\<^sub>0\<close> is the input,
  \<open>z\<^sub>l = W\<^sub>l a\<^sub>l + b\<^sub>l\<close>, and \<open>a\<^bsub>l+1\<^esub>\<close> is the sigmoid of \<open>z\<^sub>l\<close> on every transition but the
  last, where it is \<open>z\<^sub>l\<close> itself.
\<close>

definition affine :: "NeuralNetwork \<Rightarrow> nat \<Rightarrow> Vector \<Rightarrow> Vector" where
  "affine nn l a =
     map (\<lambda>r. (\<Sum>c<layer_sizes nn ! l. weights nn ! l ! r ! c * a ! c) + biases nn ! l ! r)
         [0..<layer_sizes nn ! (l + 1)]"

fun activation_at :: "NeuralNetwork \<Rightarrow> Vector \<Rightarrow> nat \<Rightarrow> Vector" where
  "activation_at nn input 0 = input"
| "activation_at nn input (Suc l) =
     (if l < length (layer_sizes nn) - 2
      then map sigmoid (affine nn l (activation_at nn input l))
      else affine nn l (activation_at nn input l))"

definition preactivation_at :: "NeuralNetwork \<Rightarrow> Vector \<Rightarrow> nat \<Rightarrow> Vector" where
  "preactivation_at nn input l = affine nn l (activation_at nn input l)"

definition network_output :: "NeuralNetwork \<Rightarrow> Vector \<Rightarrow> Vector" where
  "network_output nn input = activation_at nn input (length (layer_sizes nn) - 1)"

text \<open>
  The deltas of backpropagation, by transition \<open>l\<close> (the delta of layer \<open>l + 1\<close>): the last one
  is the output minus the target; a hidden one is \<open>W\<^bsub>l+1\<^esub>\<^sup>T\<close> times the next delta, multiplied
  entry by entry with the sigmoid derivative of the layer's own pre-activation \<open>z\<^sub>l\<close>.
\<close>

function delta_at :: "NeuralNetwork \<Rightarrow> Vector \<Rightarrow> Vector \<Rightarrow> nat \<Rightarrow> Vector" where
  "delta_at nn input target l =
     (if length (layer_sizes nn) \<le> l + 2
      then map (\<lambda>j. network_output nn input ! j - target ! j) [0..<last (layer_sizes nn)]
      else let next_delta = delta_at nn input target (l + 1)
           in map (\<lambda>j. (\<Sum>r<layer_sizes nn ! (l + 2). weights nn ! (l + 1) ! r ! j * next_delta ! r)
                        * sigmoid_derivative (preactivation_at nn input l ! j))
                  [0..<layer_sizes nn ! (l + 1)])"
  by pat_completeness auto
termination
  by (relation "measure (\<lambda>(nn, input, target, l). length (layer_sizes nn) - l)") simp_all

text \<open>The object after one step of stochastic gradient descent on \<open>(input, target)\<close>:
  \<open>W\<^sub>l -= learning_rate * (delta\<^sub>l outer-product a\<^sub>l)\<close>, \<open>b\<^sub>l -= learning_rate * delta\<^sub>l\<close>, and the
  transient state of the forward pass that came first.\<close>

definition updated_weights :: "NeuralNetwork \<Rightarrow> Vector \<Rightarrow> Vector \<Rightarrow> nat \<Rightarrow> Matrix" where
  "updated_weights nn input target l =
     map (\<lambda>r. map (\<lambda>c. weights nn ! l ! r ! c
                          - nn_learning_rate nn
                            * (delta_at nn input target l ! r * activation_at nn input l ! c))
                   [0..<layer_sizes nn ! l])
         [0..<layer_sizes nn ! (l + 1)]"

definition updated_biases :: "NeuralNetwork \<Rightarrow> Vector \<Rightarrow> Vector \<Rightarrow> nat \<Rightarrow> Vector" where
  "updated_biases nn input target l =
     map (\<lambda>r. biases nn ! l ! r - nn_learning_rate nn * delta_at nn input target l ! r)
         [0..<layer_sizes nn ! (l + 1)]"

definition sgd_step :: "NeuralNetwork \<Rightarrow> Vector \<Rightarrow> Vector \<Rightarrow> NeuralNetwork" where
  "sgd_step nn input target =
     nn\<lparr>weights := map (updated_weights nn input target) [0..<length (layer_sizes nn) - 1],
        biases := map (updated_biases nn input target) [0..<length (layer_sizes nn) - 1],
        layer_outputs := map (activation_at nn input) [0..<length (layer_sizes nn)],
        layer_inputs := map (preactivation_at nn input) [0..<length (layer_sizes nn) - 1]\<rparr>"

text \<open>The state in which a successful forward pass leaves the object.\<close>

definition forward_state :: "NeuralNetwork \<Rightarrow> Vector \<Rightarrow> nat \<Rightarrow> NeuralNetwork" where
  "forward_state nn input k =
     nn\<lparr>layer_outputs := map (activation_at nn input) [0..<Suc k]
                           @ replicate (length (layer_sizes nn) - 1 - k) [],
        layer_inputs := map (preactivation_at nn input) [0..<k]
                          @ replicate (length (layer_sizes nn) - 1 - k) []\<rparr>"

text \<open>The object while the update loop of backpropagation is at transition \<open>k\<close>: the first
  \<open>k\<close> weight matrices and bias vectors are updated, the others are not yet.\<close>

definition update_state :: "NeuralNetwork \<Rightarrow> NeuralNetwork \<Rightarrow> Vector \<Rightarrow> Vector \<Rightarrow> nat \<Rightarrow> NeuralNetwork" where
  "update_state nn nn1 input target k =
     nn1\<lparr>weights := map (updated_weights nn input target) [0..<k] @ drop k (weights nn),
         biases := map (updated_biases nn input target) [0..<k] @ drop k (biases nn)\<rparr>"

text \<open>Three concrete objects: the network with an empty hidden layer that the constructor
  builds from \<open>{1, 0, 1}\<close> (all draws 0); a network \<open>{1, 1, 1}\<close> with one hidden neuron; and
  the network that the constructor builds from \<open>{1, 1}\<close> when every weight draw is \<open>1/4\<close> and
  every bias draw \<open>1/20\<close>.\<close>

definition degenerate_network :: NeuralNetwork where
  "degenerate_network =
     \<lparr>layer_sizes = [1, 0, 1], weights = [[], [[]]], biases = [[], [0]],
      nn_learning_rate = 1 / 100, layer_outputs = [], layer_inputs = []\<rparr>"

definition small_network :: NeuralNetwork where
  "small_network =
     \<lparr>layer_sizes = [1, 1, 1], weights = [[[0]], [[2]]], biases = [[0], [0]],
      nn_learning_rate = 1, layer_outputs = [], layer_inputs = []\<rparr>"

definition fresh_network :: NeuralNetwork where
  "fresh_network =
     \<lparr>layer_sizes = [1, 1], weights = [[[1 / 4]]], biases = [[1 / 20]],
      nn_learning_rate = 1 / 100, layer_outputs = [], layer_inputs = []\<rparr>"

text \<open>The calls that a user of the class (or a test, which reaches the private methods too)
  can make on an object, and the object that each leaves, whether it returns or throws.\<close>

datatype call =
    Predict Vector
  | ForwardPass Vector
  | Backpropagate Vector Vector
  | Train Vector Vector
  | TrainForEpochs "nat \<Rightarrow> nat list \<Rightarrow> nat list" "Vector list" "Vector list" int int

fun after_call :: "NeuralNetwork \<Rightarrow> call \<Rightarrow> NeuralNetwork" where
  "after_call nn (Predict input) = snd (predict nn input)"
| "after_call nn (ForwardPass input) = snd (forward_pass nn input)"
| "after_call nn (Backpropagate input target) = snd (backpropagate nn input target)"
| "after_call nn (Train input target) = snd (train nn input target)"
| "after_call nn (TrainForEpochs shuffle inputs targets epochs report_every_n_epochs) =
     network (snd (train_for_epochs shuffle nn inputs targets epochs report_every_n_epochs))"

definition after_calls :: "NeuralNetwork \<Rightarrow> call list \<Rightarrow> NeuralNetwork" where
  "after_calls nn calls = foldl after_call nn calls"

text \<open>A sample, and a whole dataset, that fits the network: every input has the size of the
  input layer and every target the size of the output layer; for the dataset also, every
  layer after the input layer has at least one neuron.\<close>

definition sample_ok :: "NeuralNetwork \<Rightarrow> Vector list \<Rightarrow> Vector list \<Rightarrow> nat \<Rightarrow> bool" where
  "sample_ok nn inputs targets idx \<longleftrightarrow>
     length (inputs ! idx) = layer_sizes nn ! 0 \<and> length (targets ! idx) = last (layer_sizes nn)"

definition dataset_ok :: "NeuralNetwork \<Rightarrow> Vector list \<Rightarrow> Vector list \<Rightarrow> bool" where
  "dataset_ok nn inputs targets \<longleftrightarrow>
     later_layers_positive nn
   \<and> (\<forall>x\<in>set inputs. length x = layer_sizes nn ! 0)
   \<and> (\<forall>t\<in>set targets. length t = last (layer_sizes nn))"

section \<open>Properties of the linear regression\<close>

lemma fold_add_sum: "fold (\<lambda>i s. s + f i) [0..<n] (a::real) = a + (\<Sum>i<n. f i)"
  by (induction n) simp_all

lemma fold_add_sum2:
  "fold (\<lambda>i (p, q). (p + f i, q + g i)) [0..<n] (a::real, b::real) = (a + (\<Sum>i<n. f i), b + (\<Sum>i<n. g i))"
  by (induction n) simp_all

lemma mean_eq: "vec \<noteq> [] \<Longrightarrow> mean vec = Inr (spec_mean vec)"
  by (simp add: mean_def spec_mean_def fold_add_sum)

text \<open>
  Claim C3. For all \<open>X\<close> and \<open>y\<close>, \<open>fit_analytical\<close> throws \<open>InvalidArgument\<close> exactly when
  the lengths differ or the input is empty; otherwise it stores the slope
  \<open>\<Sum>(x\<^sub>i - mean X)(y\<^sub>i - mean y) / \<Sum>(x\<^sub>i - mean X)\<^sup>2\<close>, or 0 when the absolute value of that
  denominator is below \<open>1e-10\<close>, and the intercept \<open>mean y - slope * mean X\<close>.
\<close>

theorem fit_analytical_closed_form:
  "fit_analytical m X y =
     (if length X \<noteq> length y \<or> X = [] then Inl InvalidArgument
      else Inr (m\<lparr>slope := spec_slope X y,
                  intercept := spec_mean y - spec_slope X y * spec_mean X\<rparr>))"
proof (cases "length X \<noteq> length y \<or> X = []")
  case True
  then show ?thesis by (auto simp: fit_analytical_def)
next
  case False
  then have ne: "X \<noteq> []" "y \<noteq> []" and len: "length y = length X" by auto
  show ?thesis
    using False
    by (simp add: fit_analytical_def mean_eq ne len Let_def fold_add_sum2 spec_slope_def power2_eq_square)
qed

theorem fit_analytical_closed_form_witness:
  "fit_analytical (new_LinearRegression (1/100) 1000 32) [1, 2, 3, 4] [3, 5, 7, 9] =
     Inr ((new_LinearRegression (1/100) 1000 32)\<lparr>slope := 2, intercept := 1\<rparr>)"
  using fit_analytical_closed_form [of "new_LinearRegression (1/100) 1000 32" "[1, 2, 3, 4]" "[3, 5, 7, 9]"]
  by (simp add: spec_slope_def spec_mean_def eval_nat_numeral)

text \<open>
  Claim C7. \<open>get_mse\<close> on two empty vectors returns 0 and does not throw; \<open>get_r_squared\<close>
  throws \<open>InvalidArgument\<close> whenever the lengths differ or the input is empty (and only then);
  \<open>get_mse\<close> throws \<open>InvalidArgument\<close> on a length mismatch.
\<close>

theorem metrics_on_empty_and_mismatch:
  "get_mse m [] [] = Inr 0
   \<and> (get_r_squared m X y = Inl InvalidArgument) = (length X \<noteq> length y \<or> X = [])
   \<and> (length X \<noteq> length y \<longrightarrow> get_mse m X y = Inl InvalidArgument)"
  by (auto simp: get_mse_def mean_squared_error_def get_r_squared_def mean_def Let_def split: sum.splits)

theorem metrics_on_empty_and_mismatch_witness:
  "get_mse unit_model [] [] = Inr 0
   \<and> get_r_squared unit_model [] [] = Inl InvalidArgument
   \<and> get_r_squared unit_model [1] [1, 2] = Inl InvalidArgument
   \<and> get_mse unit_model [1] [1, 2] = Inl InvalidArgument"
  using metrics_on_empty_and_mismatch [of unit_model "[]" "[]"]
        metrics_on_empty_and_mismatch [of unit_model "[1]" "[1, 2]"]
  by simp

lemma batch_gradients_sums:
  "batch_gradients m bX bY n =
     ((\<Sum>i<n. (slope m * bX ! i + intercept m - bY ! i) * bX ! i),
      (\<Sum>i<n. (slope m * bX ! i + intercept m - bY ! i)))"
  by (simp add: batch_gradients_def Let_def fold_add_sum2)

lemma deriv_sq_slope:
  "((\<lambda>s. (s * x + b - y) ^ 2) has_real_derivative 2 * (s * x + b - y) * x) (at (s::real))"
  by (auto intro!: derivative_eq_intros)

lemma deriv_sq_intercept:
  "((\<lambda>b. (s * x + b - y) ^ 2) has_real_derivative 2 * (s * x + b - y)) (at (b::real))"
  by (auto intro!: derivative_eq_intros)

lemma deriv_mse_slope:
  "(batch_mse_of_slope bX bY b has_real_derivative
      (\<Sum>i<length bX. 2 * (s * bX ! i + b - bY ! i) * bX ! i) / real (length bX)) (at s)"
  unfolding batch_mse_of_slope_def [abs_def]
  by (intro DERIV_cdivide DERIV_sum deriv_sq_slope)

lemma deriv_mse_intercept:
  "(batch_mse_of_intercept bX bY s has_real_derivative
      (\<Sum>i<length bX. 2 * (s * bX ! i + b - bY ! i)) / real (length bX)) (at b)"
  unfolding batch_mse_of_intercept_def [abs_def] batch_mse_of_slope_def [abs_def]
  by (intro DERIV_cdivide DERIV_sum deriv_sq_intercept)

lemma length_prepare_batch [simp]: "length (prepare_batch v idx bs n) = n"
  by (simp add: prepare_batch_def)

lemma half_gradient:
  "(\<Sum>i<n. 2 * f i * g i) / c / 2 = (\<Sum>i<n. f i * g i :: real) * (1 / c)"
  "(\<Sum>i<n. 2 * f i) / c / 2 = (\<Sum>i<n. f i :: real) * (1 / c)"
  by (simp_all add: sum_distrib_left [symmetric] mult.assoc)

text \<open>
  Claim C1, as amended. For every mini-batch step of \<open>fit\<close> (a start inside the data, a
  positive batch size), the loss \<open>MSE_batch\<close>, the mean of \<open>(slope * x\<^sub>i + intercept - y\<^sub>i)\<^sup>2\<close>
  over the batch, has a derivative \<open>Ds\<close> in the slope and \<open>Di\<close> in the intercept at the
  parameters before the update, and the step subtracts \<open>learning_rate\<close> times HALF of each:
  \<open>slope -= learning_rate * Ds / 2\<close> and \<open>intercept -= learning_rate * Di / 2\<close>.
\<close>

theorem batch_step_half_gradient:
  assumes "batch_start < length X" and "0 < batch_size m"
  shows "\<exists>Ds Di.
      (batch_mse_of_slope (batch_at m X X idx batch_start) (batch_at m X y idx batch_start)
          (intercept m) has_real_derivative Ds) (at (slope m))
    \<and> (batch_mse_of_intercept (batch_at m X X idx batch_start) (batch_at m X y idx batch_start)
          (slope m) has_real_derivative Di) (at (intercept m))
    \<and> slope (batch_step m X y idx batch_start) = slope m - learning_rate m * (Ds / 2)
    \<and> intercept (batch_step m X y idx batch_start) = intercept m - learning_rate m * (Di / 2)"
proof -
  let ?n = "current_batch_size_at m X batch_start"
  let ?bX = "batch_at m X X idx batch_start" and ?bY = "batch_at m X y idx batch_start"
  have len: "length ?bX = ?n" by (simp add: batch_at_def)
  let ?Ds = "(\<Sum>i<length ?bX. 2 * (slope m * ?bX ! i + intercept m - ?bY ! i) * ?bX ! i) / real (length ?bX)"
  let ?Di = "(\<Sum>i<length ?bX. 2 * (slope m * ?bX ! i + intercept m - ?bY ! i)) / real (length ?bX)"
  have step: "batch_step m X y idx batch_start =
      m\<lparr>slope := slope m - learning_rate m *
                ((\<Sum>i<?n. (slope m * ?bX ! i + intercept m - ?bY ! i) * ?bX ! i) * (1 / real ?n)),
        intercept := intercept m - learning_rate m *
                ((\<Sum>i<?n. (slope m * ?bX ! i + intercept m - ?bY ! i)) * (1 / real ?n))\<rparr>"
    by (simp add: batch_step_def Let_def update_parameters_def batch_gradients_sums batch_at_def)
  have s: "slope (batch_step m X y idx batch_start) = slope m - learning_rate m * (?Ds / 2)"
    unfolding step len half_gradient by simp
  have i: "intercept (batch_step m X y idx batch_start) = intercept m - learning_rate m * (?Di / 2)"
    unfolding step len half_gradient by simp
  from s i deriv_mse_slope [of ?bX ?bY "intercept m" "slope m"]
       deriv_mse_intercept [of ?bX ?bY "slope m" "intercept m"]
  show ?thesis by blast
qed

text \<open>
  Claim C1 as stated fails: on the one-sample batch \<open>x = 1\<close>, \<open>y = 0\<close> with slope 1,
  intercept 0 and learning rate 1 the derivative of \<open>MSE_batch\<close> in the slope is 2, so the
  claim gives the new slope \<open>1 - 1 * 2 = -1\<close>; the step gives 0.
\<close>

theorem batch_step_full_gradient_counterexample:
  "(batch_mse_of_slope (batch_at unit_model [1] [1] [0] 0) (batch_at unit_model [1] [0] [0] 0)
       (intercept unit_model) has_real_derivative 2) (at (slope unit_model))
   \<and> slope (batch_step unit_model [1] [0] [0] 0) = 0
   \<and> slope (batch_step unit_model [1] [0] [0] 0) \<noteq> slope unit_model - learning_rate unit_model * 2"
proof -
  have b: "batch_at unit_model [1] [1] [0] 0 = [1]" "batch_at unit_model [1] [0] [0] 0 = [0]"
    by (simp_all add: batch_at_def prepare_batch_def current_batch_size_at_def unit_model_def)
  have "(batch_mse_of_slope [1] [0] 0 has_real_derivative 2) (at 1)"
    using deriv_mse_slope [of "[1]" "[0]" 0 1] by simp
  moreover have "slope (batch_step unit_model [1] [0] [0] 0) = 0"
    by (simp add: batch_step_def Let_def update_parameters_def batch_gradients_sums
        prepare_batch_def current_batch_size_at_def unit_model_def)
  ultimately show ?thesis by (simp add: b) (simp add: unit_model_def)
qed

theorem batch_step_half_gradient_witness:
  "\<exists>Ds Di.
      (batch_mse_of_slope (batch_at unit_model [1] [1] [0] 0) (batch_at unit_model [1] [0] [0] 0)
          (intercept unit_model) has_real_derivative Ds) (at (slope unit_model))
    \<and> (batch_mse_of_intercept (batch_at unit_model [1] [1] [0] 0) (batch_at unit_model [1] [0] [0] 0)
          (slope unit_model) has_real_derivative Di) (at (intercept unit_model))
    \<and> slope (batch_step unit_model [1] [0] [0] 0) = slope unit_model - learning_rate unit_model * (Ds / 2)
    \<and> intercept (batch_step unit_model [1] [0] [0] 0) = intercept unit_model - learning_rate unit_model * (Di / 2)"
  using batch_step_half_gradient [of 0 "[1]" unit_model "[0]" "[0]"]
  by (simp add: unit_model_def)

subsection \<open>Early stopping in \<open>fit\<close>\<close>

lemma mean_squared_error_d_returns:
  "length X = length y \<Longrightarrow> \<exists>v. mean_squared_error_d p X y = Inr v"
  by (simp add: mean_squared_error_d_def)

lemma early_stopping_check_rule:
  "early_stopping_check mse st = (st', stop) \<Longrightarrow>
     stopping_rule mse st st' \<and> (stop \<longleftrightarrow> no_improvement_count st' \<ge> 5)
     \<and> (no_improvement_count st < 5 \<longrightarrow> no_improvement_count st' \<le> 5)"
  unfolding early_stopping_check_def stopping_rule_def improvement_exceeds_def Let_def
        tolerance_def patience_def
  by (cases st) (auto split: if_splits)

lemma run_epoch_invariant:
  assumes "length X = length y" "epoch_invariant X y iter s"
  shows "\<exists>s1 stop. run_epoch shuffle lr bs X y iter s = Inr (s1, stop)
      \<and> history_follows_rule X y (history s1) \<and> int (length (history s1)) = iter + 1
      \<and> stopping_of s1 = stopping_before (history s1) (length (history s1))
      \<and> (stop \<longleftrightarrow> no_improvement_count (stopping_of s1) \<ge> 5)
      \<and> no_improvement_count (stopping_of s1) \<le> 5"
proof -
  let ?p = "process_batches lr bs X y (shuffle (nat iter) (indices_of s)) 0 (params s)"
  from mean_squared_error_d_returns [OF assms(1)]
  obtain v where mse: "mean_squared_error_d ?p X y = Inr v" by blast
  obtain st stop where chk: "early_stopping_check v (stopping_of s) = (st, stop)"
    by (cases "early_stopping_check v (stopping_of s)")
  let ?h = "history s @ [(?p, v, st)]"
  let ?s1 = "\<lparr>params = ?p, indices_of = shuffle (nat iter) (indices_of s), stopping_of = st,
              history = ?h\<rparr>"
  have run: "run_epoch shuffle lr bs X y iter s = Inr (?s1, stop)"
    by (simp add: run_epoch_def Let_def mse chk)
  from assms(2) have inv: "history_follows_rule X y (history s)"
      "stopping_of s = stopping_before (history s) (length (history s))"
      "no_improvement_count (stopping_of s) < 5" "int (length (history s)) = iter"
    by (auto simp: epoch_invariant_def)
  from early_stopping_check_rule [OF chk] inv(3)
  have r: "stopping_rule v (stopping_of s) st"
      "stop \<longleftrightarrow> no_improvement_count st \<ge> 5" "no_improvement_count st \<le> 5" by auto
  have prev: "\<And>k. k < length (history s) \<Longrightarrow> stopping_before ?h k = stopping_before (history s) k"
    by (auto simp: stopping_before_def nth_append)
  have small: "\<And>k. k < length (history s) \<Longrightarrow> no_improvement_count (snd (snd (history s ! k))) < 5"
  proof -
    fix k assume k: "k < length (history s)"
    show "no_improvement_count (snd (snd (history s ! k))) < 5"
    proof (cases "k = length (history s) - 1")
      case True
      with k inv(2,3) show ?thesis by (auto simp: stopping_before_def split: if_splits)
    next
      case False
      from inv(1) k have "no_improvement_count (snd (snd (history s ! k))) \<ge> 5 \<longrightarrow> k = length (history s) - 1"
        by (simp add: history_follows_rule_def)
      with False show ?thesis by auto
    qed
  qed
  have hfr: "history_follows_rule X y ?h"
    unfolding history_follows_rule_def
  proof
    fix k assume "k \<in> {0..<length ?h}"
    then consider "k < length (history s)" | "k = length (history s)" by fastforce
    then show "mean_squared_error_d (fst (?h ! k)) X y = Inr (fst (snd (?h ! k)))
      \<and> stopping_rule (fst (snd (?h ! k))) (stopping_before ?h k) (snd (snd (?h ! k)))
      \<and> (no_improvement_count (snd (snd (?h ! k))) \<ge> 5 \<longrightarrow> k = length ?h - 1)"
    proof cases
      case 1
      have kin: "k \<in> {0..<length (history s)}" using 1 by simp
      note a = inv(1) [unfolded history_follows_rule_def, rule_format, OF kin]
      have nth: "?h ! k = history s ! k" using 1 by (simp add: nth_append)
      from small [OF 1] have "\<not> no_improvement_count (snd (snd (history s ! k))) \<ge> 5" by simp
      with a show ?thesis unfolding nth prev [OF 1] by blast
    next
      case 2
      have nth2: "?h ! k = (?p, v, st)" using 2 by simp
      have "stopping_before ?h k = stopping_before (history s) (length (history s))"
        unfolding 2 stopping_before_def by (cases "history s = []") (simp_all add: nth_append)
      then have sb: "stopping_before ?h k = stopping_of s" by (rule trans) (rule inv(2) [symmetric])
      have last: "k = length ?h - 1" using 2 by simp
      from r(1) last mse show ?thesis unfolding nth2 sb by simp
    qed
  qed
  show ?thesis
  proof (intro exI conjI)
    show "run_epoch shuffle lr bs X y iter s = Inr (?s1, stop)" by (rule run)
    show "history_follows_rule X y (history ?s1)" using hfr by simp
    show "int (length (history ?s1)) = iter + 1" using inv(4) by simp
    show "stopping_of ?s1 = stopping_before (history ?s1) (length (history ?s1))"
      by (simp add: stopping_before_def)
    show "stop \<longleftrightarrow> no_improvement_count (stopping_of ?s1) \<ge> 5" using r(2) by simp
    show "no_improvement_count (stopping_of ?s1) \<le> 5" using r(3) by simp
  qed
qed

lemma fit_epochs_invariant:
  "length X = length y \<Longrightarrow> epoch_invariant X y iter s \<Longrightarrow>
     \<exists>s'. fit_epochs shuffle lr bs X y max_iter iter s = Inr s'
       \<and> history_follows_rule X y (history s')
       \<and> int (length (history s')) \<le> max iter max_iter
       \<and> (int (length (history s')) < max_iter \<longrightarrow> no_improvement_count (stopping_of s') = 5)
       \<and> stopping_of s' = stopping_before (history s') (length (history s'))"
proof (induction shuffle lr bs X y max_iter iter s rule: fit_epochs.induct)
  case (1 shuffle lr bs X y max_iter iter s)
  show ?case
  proof (cases "iter < max_iter")
    case False
    with "1.prems" show ?thesis
      by (simp add: epoch_invariant_def fit_epochs.simps [of _ _ _ _ _ max_iter iter])
  next
    case True
    from run_epoch_invariant [OF "1.prems", of shuffle lr bs]
    obtain s1 stop where run: "run_epoch shuffle lr bs X y iter s = Inr (s1, stop)"
      and h1: "history_follows_rule X y (history s1)" "int (length (history s1)) = iter + 1"
        "stopping_of s1 = stopping_before (history s1) (length (history s1))"
        "stop \<longleftrightarrow> no_improvement_count (stopping_of s1) \<ge> 5"
        "no_improvement_count (stopping_of s1) \<le> 5" by blast
    show ?thesis
    proof (cases stop)
      case True
      with \<open>iter < max_iter\<close> run h1 show ?thesis
        by (simp add: fit_epochs.simps [of _ _ _ _ _ max_iter iter])
    next
      case False
      with h1 have inv1: "epoch_invariant X y (iter + 1) s1" by (simp add: epoch_invariant_def)
      from "1.IH" [OF \<open>iter < max_iter\<close> run refl False "1.prems"(1) inv1] \<open>iter < max_iter\<close> run False
      show ?thesis by (simp add: fit_epochs.simps [of _ _ _ _ _ max_iter iter])
    qed
  qed
qed


subsection \<open>Two runs of \<open>fit\<close>, evaluated\<close>

lemma DBL_MAX_gt_2: "2 < DBL_MAX"
  by (simp add: DBL_MAX_def)

lemma to_double_small: "\<bar>x\<bar> \<le> 2 \<Longrightarrow> to_double x = Finite x"
  using DBL_MAX_gt_2 by (simp add: to_double_def abs_le_iff)

lemma to_double_DBL_MAX:
  "to_double DBL_MAX = Finite DBL_MAX" "to_double (- DBL_MAX) = Finite (- DBL_MAX)"
  using DBL_MAX_gt_2 by (simp_all add: to_double_def)

lemma to_double_square: "to_double (DBL_MAX * DBL_MAX) = PosInf"
proof -
  have "DBL_MAX * 1 < DBL_MAX * DBL_MAX"
    using DBL_MAX_gt_2 by (intro mult_strict_left_mono) simp_all
  then show ?thesis by (simp add: to_double_def)
qed

lemma process_batches_single:
  "0 < bs \<Longrightarrow> process_batches lr bs [x] [t] [0] 0 p =
     \<lparr>slope_d = dsub (slope_d p) (dmul (Finite lr)
          (dmul (dadd (Finite 0) (dmul (dsub (predict_d p x) (Finite t)) (Finite x)))
             (ddiv_size (Finite 1) 1))),
      intercept_d = dsub (intercept_d p) (dmul (Finite lr)
          (dmul (dadd (Finite 0) (dsub (predict_d p x) (Finite t))) (ddiv_size (Finite 1) 1)))\<rparr>"
proof -
  assume bs: "0 < bs"
  then have m: "min bs (Suc 0) = Suc 0" by simp
  show ?thesis
    using bs
    by (simp add: process_batches.simps [of lr bs "[x]" "[t]" "[0]" 0]
        process_batches.simps [of lr bs "[x]" "[t]" "[0]" bs]
        batch_step_d_def update_parameters_d_def batch_gradients_d_def prepare_batch_def Let_def m)
qed

lemma mean_squared_error_d_single:
  "mean_squared_error_d p [x] [t] =
     Inr (ddiv_size (dadd (Finite 0) (dmul (dsub (predict_d p x) (Finite t))
                                          (dsub (predict_d p x) (Finite t)))) 1)"
  by (simp add: mean_squared_error_d_def Let_def)

text \<open>The converging run: the error shrinks by the factor 10 in each epoch, so the MSE by the
  factor 100. The first three epochs improve the best MSE, the next five do not, and the loop
  stops after the eighth epoch.\<close>

lemma converging_run_summary:
  "map_sum id (\<lambda>s. (epoch_summary (history s), stopping_of s)) converging_run =
     Inr ([(Finite (1 / 10 ^ 2), Finite (1 / 10 ^ 2), 0),
           (Finite (1 / 10 ^ 4), Finite (1 / 10 ^ 4), 0),
           (Finite (1 / 10 ^ 6), Finite (1 / 10 ^ 6), 0),
           (Finite (1 / 10 ^ 8), Finite (1 / 10 ^ 6), 1),
           (Finite (1 / 10 ^ 10), Finite (1 / 10 ^ 6), 2),
           (Finite (1 / 10 ^ 12), Finite (1 / 10 ^ 6), 3),
           (Finite (1 / 10 ^ 14), Finite (1 / 10 ^ 6), 4),
           (Finite (1 / 10 ^ 16), Finite (1 / 10 ^ 6), 5)],
          \<lparr>best_mse = Finite (1 / 10 ^ 6), no_improvement_count = 5\<rparr>)"
  by (simp add: converging_run_def fit_run_def new_LinearRegression_def fit_epochs.simps
      run_epoch_def Let_def process_batches_single mean_squared_error_d_single
      early_stopping_check_def predict_d_def dsub_def dgreater_def std_max_def tolerance_def
      patience_def to_double_small epoch_summary_def)

text \<open>The overflowing run: the first epoch takes the slope to \<open>DBL_MAX\<close>, the MSE is infinite
  in the first two epochs, and from the third epoch on the parameters and the MSE are NaN.\<close>

lemma overflowing_run_start:
  "fit_epochs (\<lambda>e xs. xs) 1 32 [DBL_MAX] [1] 1000 0
     \<lparr>params = \<lparr>slope_d = Finite 0, intercept_d = Finite 0\<rparr>, indices_of = [0],
      stopping_of = \<lparr>best_mse = PosInf, no_improvement_count = 0\<rparr>, history = []\<rparr> =
   fit_epochs (\<lambda>e xs. xs) 1 32 [DBL_MAX] [1] 1000 3
     \<lparr>params = \<lparr>slope_d = NaN, intercept_d = NaN\<rparr>, indices_of = [0],
      stopping_of = \<lparr>best_mse = NaN, no_improvement_count = 0\<rparr>,
      history = [(\<lparr>slope_d = Finite DBL_MAX, intercept_d = Finite 1\<rparr>, PosInf,
                   \<lparr>best_mse = PosInf, no_improvement_count = 0\<rparr>),
                 (\<lparr>slope_d = NegInf, intercept_d = NegInf\<rparr>, PosInf,
                   \<lparr>best_mse = PosInf, no_improvement_count = 0\<rparr>),
                 (\<lparr>slope_d = NaN, intercept_d = NaN\<rparr>, NaN,
                   \<lparr>best_mse = NaN, no_improvement_count = 0\<rparr>)]\<rparr>"
  using DBL_MAX_gt_2
  by (simp add: fit_epochs.simps [of _ _ _ _ _ _ 0] fit_epochs.simps [of _ _ _ _ _ _ 1]
      fit_epochs.simps [of _ _ _ _ _ _ 2]
      run_epoch_def Let_def process_batches_single mean_squared_error_d_single
      early_stopping_check_def predict_d_def dsub_def to_double_small to_double_DBL_MAX
      to_double_square)

lemma run_epoch_nan:
  assumes "0 < bs" and "params s = \<lparr>slope_d = NaN, intercept_d = NaN\<rparr>"
    and "indices_of s = [0]" and "stopping_of s = \<lparr>best_mse = NaN, no_improvement_count = 0\<rparr>"
  shows "run_epoch (\<lambda>e xs. xs) lr bs [x] [t] iter s =
     Inr (s\<lparr>history := history s @ [(\<lparr>slope_d = NaN, intercept_d = NaN\<rparr>, NaN,
                                       \<lparr>best_mse = NaN, no_improvement_count = 0\<rparr>)]\<rparr>, False)"
  using assms
  by (simp add: run_epoch_def Let_def process_batches_single mean_squared_error_d_single
      early_stopping_check_def predict_d_def dsub_def)

lemma fit_epochs_nan:
  "0 < bs \<Longrightarrow> params s = \<lparr>slope_d = NaN, intercept_d = NaN\<rparr> \<Longrightarrow> indices_of s = [0] \<Longrightarrow>
   stopping_of s = \<lparr>best_mse = NaN, no_improvement_count = 0\<rparr> \<Longrightarrow>
   fit_epochs (\<lambda>e xs. xs) lr bs [x] [t] max_iter iter s =
     Inr (s\<lparr>history := history s @ replicate (nat (max_iter - iter))
            (\<lparr>slope_d = NaN, intercept_d = NaN\<rparr>, NaN,
             \<lparr>best_mse = NaN, no_improvement_count = 0\<rparr>)\<rparr>)"
proof (induction "\<lambda>(e :: nat) (xs :: nat list). xs" lr bs "[x]" "[t]" max_iter iter s
    rule: fit_epochs.induct)
  case (1 lr bs max_iter iter s)
  let ?e = "(\<lparr>slope_d = NaN, intercept_d = NaN\<rparr>, NaN,
             \<lparr>best_mse = NaN, no_improvement_count = 0\<rparr>)"
  show ?case
  proof (cases "iter < max_iter")
    case False
    then show ?thesis by (simp add: fit_epochs.simps [of _ _ _ _ _ max_iter iter])
  next
    case True
    let ?s1 = "s\<lparr>history := history s @ [?e]\<rparr>"
    have run: "run_epoch (\<lambda>e xs. xs) lr bs [x] [t] iter s = Inr (?s1, False)"
      by (rule run_epoch_nan [OF "1.prems"])
    have n: "nat (max_iter - iter) = Suc (nat (max_iter - (iter + 1)))"
      using True by simp
    have "fit_epochs (\<lambda>e xs. xs) lr bs [x] [t] max_iter (iter + 1) ?s1 =
        Inr (?s1\<lparr>history := history ?s1 @ replicate (nat (max_iter - (iter + 1))) ?e\<rparr>)"
      using "1.prems" by (intro "1.hyps" [OF True run refl]) simp_all
    then show ?thesis
      unfolding n
      by (simp add: fit_epochs.simps [of _ _ _ _ _ max_iter iter] True run)
  qed
qed

lemma overflowing_run_summary:
  "map_sum id (\<lambda>s. (epoch_summary (history s), stopping_of s)) overflowing_run =
     Inr ((PosInf, PosInf, 0) # (PosInf, PosInf, 0) # replicate 998 (NaN, NaN, 0),
          \<lparr>best_mse = NaN, no_improvement_count = 0\<rparr>)"
proof -
  have r: "replicate 998 (NaN, NaN, 0 :: int) = (NaN, NaN, 0) # replicate 997 (NaN, NaN, 0)"
    using replicate_Suc [of 997 "(NaN, NaN, 0 :: int)"] by simp
  show ?thesis
    unfolding r
    by (simp add: overflowing_run_def fit_run_def new_LinearRegression_def overflowing_run_start
        fit_epochs_nan epoch_summary_def)
qed

text \<open>
  Claim C8, as amended. On equal-length, non-empty data with a positive batch size \<open>fit\<close>
  returns, and the epochs it ran are such that: after each epoch the full-dataset MSE of the
  parameters is computed; the bookkeeping, which starts with the best MSE at +infinity and
  the counter at 0, follows the rule (when the best MSE is not finite or the improvement over
  it exceeds \<open>1e-6 * max(1, best)\<close>, the counter is reset to 0 and the epoch's MSE becomes
  the best; anything else increments the counter); no epoch runs after one that left the
  counter at 5; at most \<open>max_iterations\<close> epochs run, and fewer only if the counter is 5.
\<close>

theorem fit_early_stopping:
  assumes "length X = length y" and "X \<noteq> []" and "0 < batch_size m"
  shows "\<exists>s. fit_run shuffle m X y = Inr s \<and> fit shuffle m X y = Inr (params s)
     \<and> history_follows_rule X y (history s)
     \<and> int (length (history s)) \<le> max 0 (max_iterations m)
     \<and> (int (length (history s)) < max_iterations m \<longrightarrow> no_improvement_count (stopping_of s) = 5)
     \<and> stopping_of s = stopping_before (history s) (length (history s))"
proof -
  let ?s0 = "\<lparr>params = \<lparr>slope_d = Finite (slope m), intercept_d = Finite (intercept m)\<rparr>,
              indices_of = [0..<length X],
              stopping_of = \<lparr>best_mse = PosInf, no_improvement_count = 0\<rparr>, history = []\<rparr>"
  have "epoch_invariant X y 0 ?s0"
    by (simp add: epoch_invariant_def history_follows_rule_def stopping_before_def
        initial_stopping_def)
  from fit_epochs_invariant [OF assms(1) this, of shuffle "learning_rate m" "nat (batch_size m)"
      "max_iterations m"] assms
  show ?thesis by (auto simp: fit_run_def fit_def)
qed

theorem fit_early_stopping_witness:
  "\<exists>s. converging_run = Inr s
     \<and> fit (\<lambda>e xs. xs) (new_LinearRegression (9 / 20) 1000 1) [1] [1] = Inr (params s)
     \<and> history_follows_rule [1] [1] (history s)
     \<and> epoch_summary (history s) =
         [(Finite (1 / 10 ^ 2), Finite (1 / 10 ^ 2), 0),
          (Finite (1 / 10 ^ 4), Finite (1 / 10 ^ 4), 0),
          (Finite (1 / 10 ^ 6), Finite (1 / 10 ^ 6), 0),
          (Finite (1 / 10 ^ 8), Finite (1 / 10 ^ 6), 1),
          (Finite (1 / 10 ^ 10), Finite (1 / 10 ^ 6), 2),
          (Finite (1 / 10 ^ 12), Finite (1 / 10 ^ 6), 3),
          (Finite (1 / 10 ^ 14), Finite (1 / 10 ^ 6), 4),
          (Finite (1 / 10 ^ 16), Finite (1 / 10 ^ 6), 5)]
     \<and> length (history s) = 8
     \<and> int (length (history s)) < max_iterations (new_LinearRegression (9 / 20) 1000 1)
     \<and> no_improvement_count (stopping_of s) = 5
     \<and> stopping_of s = stopping_before (history s) (length (history s))"
proof -
  let ?m = "new_LinearRegression (9 / 20) 1000 1"
  have b: "0 < batch_size ?m" by (simp add: new_LinearRegression_def)
  from fit_early_stopping [of "[1]" "[1]" ?m "\<lambda>e xs. xs"] b
  obtain s where s: "fit_run (\<lambda>e xs. xs) ?m [1] [1] = Inr s"
      "fit (\<lambda>e xs. xs) ?m [1] [1] = Inr (params s)"
      "history_follows_rule [1] [1] (history s)"
      "int (length (history s)) < max_iterations ?m \<longrightarrow> no_improvement_count (stopping_of s) = 5"
      "stopping_of s = stopping_before (history s) (length (history s))"
    by auto
  have c: "converging_run = Inr s" using s(1) by (simp add: converging_run_def)
  have e: "epoch_summary (history s) =
         [(Finite (1 / 10 ^ 2), Finite (1 / 10 ^ 2), 0),
          (Finite (1 / 10 ^ 4), Finite (1 / 10 ^ 4), 0),
          (Finite (1 / 10 ^ 6), Finite (1 / 10 ^ 6), 0),
          (Finite (1 / 10 ^ 8), Finite (1 / 10 ^ 6), 1),
          (Finite (1 / 10 ^ 10), Finite (1 / 10 ^ 6), 2),
          (Finite (1 / 10 ^ 12), Finite (1 / 10 ^ 6), 3),
          (Finite (1 / 10 ^ 14), Finite (1 / 10 ^ 6), 4),
          (Finite (1 / 10 ^ 16), Finite (1 / 10 ^ 6), 5)]"
    using converging_run_summary unfolding c by simp
  have "length (epoch_summary (history s)) = 8" unfolding e by simp
  then have l: "length (history s) = 8" by (simp add: epoch_summary_def)
  have lt: "int (length (history s)) < max_iterations ?m"
    unfolding l by (simp add: new_LinearRegression_def)
  with s(4) have n: "no_improvement_count (stopping_of s) = 5" by simp
  show ?thesis
  proof (intro exI conjI)
    show "converging_run = Inr s" by (rule c)
    show "fit (\<lambda>e xs. xs) ?m [1] [1] = Inr (params s)" by (rule s(2))
    show "history_follows_rule [1] [1] (history s)" by (rule s(3))
    show "epoch_summary (history s) =
         [(Finite (1 / 10 ^ 2), Finite (1 / 10 ^ 2), 0),
          (Finite (1 / 10 ^ 4), Finite (1 / 10 ^ 4), 0),
          (Finite (1 / 10 ^ 6), Finite (1 / 10 ^ 6), 0),
          (Finite (1 / 10 ^ 8), Finite (1 / 10 ^ 6), 1),
          (Finite (1 / 10 ^ 10), Finite (1 / 10 ^ 6), 2),
          (Finite (1 / 10 ^ 12), Finite (1 / 10 ^ 6), 3),
          (Finite (1 / 10 ^ 14), Finite (1 / 10 ^ 6), 4),
          (Finite (1 / 10 ^ 16), Finite (1 / 10 ^ 6), 5)]" by (rule e)
    show "length (history s) = 8" by (rule l)
    show "int (length (history s)) < max_iterations ?m" by (rule lt)
    show "no_improvement_count (stopping_of s) = 5" by (rule n)
    show "stopping_of s = stopping_before (history s) (length (history s))" by (rule s(5))
  qed
qed

text \<open>
  Claim C8 as stated, "if the improvement over the best exceeds the threshold the counter
  resets, otherwise the counter increments; the loop stops as soon as the counter reaches 5",
  does not hold when the MSE overflows. \<open>LinearRegression(1.0, 1000, 32)\<close> fitted on
  \<open>X = {DBL_MAX}\<close>, \<open>y = {1}\<close> runs all 1000 epochs: the MSE is +infinity in the first two
  epochs and NaN afterwards, the improvement never exceeds the threshold (the comparisons
  involve NaN, or +infinity on both sides), and yet the counter is 0 after every epoch,
  because the best MSE is never finite. The rule without the finiteness test would have
  taken the counter to 1 in the second epoch.
\<close>

theorem fit_resets_counter_on_overflow_counterexample:
  "\<exists>s. overflowing_run = Inr s
     \<and> length (history s) = 1000
     \<and> epoch_summary (history s) =
         (PosInf, PosInf, 0) # (PosInf, PosInf, 0) # replicate 998 (NaN, NaN, 0)
     \<and> no_improvement_count (stopping_of s) = 0
     \<and> stopping_before (history s) 1 = \<lparr>best_mse = PosInf, no_improvement_count = 0\<rparr>
     \<and> fst (snd (history s ! 1)) = PosInf
     \<and> snd (snd (history s ! 1)) = \<lparr>best_mse = PosInf, no_improvement_count = 0\<rparr>
     \<and> \<not> improvement_exceeds PosInf PosInf
     \<and> \<not> improvement_exceeds PosInf NaN
     \<and> \<not> improvement_exceeds NaN NaN
     \<and> \<not> rule_without_finiteness_test (fst (snd (history s ! 1)))
            (stopping_before (history s) 1) (snd (snd (history s ! 1)))"
proof -
  have "\<exists>s. overflowing_run = Inr s"
  proof (cases overflowing_run)
    case (Inl a)
    from overflowing_run_summary [unfolded Inl] show ?thesis by simp
  next
    case (Inr s)
    then show ?thesis by blast
  qed
  then obtain s where s: "overflowing_run = Inr s" by blast
  have e: "epoch_summary (history s) =
         (PosInf, PosInf, 0) # (PosInf, PosInf, 0) # replicate 998 (NaN, NaN, 0)"
    and st: "stopping_of s = \<lparr>best_mse = NaN, no_improvement_count = 0\<rparr>"
    using overflowing_run_summary unfolding s by simp_all
  have "length (epoch_summary (history s)) = 1000" unfolding e by simp
  then have l: "length (history s) = 1000" by (simp add: epoch_summary_def)
  have n: "\<And>k. k < 1000 \<Longrightarrow> epoch_summary (history s) ! k =
      (fst (snd (history s ! k)), best_mse (snd (snd (history s ! k))),
       no_improvement_count (snd (snd (history s ! k))))"
    using l by (simp add: epoch_summary_def case_prod_beta)
  have k0: "snd (snd (history s ! 0)) = \<lparr>best_mse = PosInf, no_improvement_count = 0\<rparr>"
    using n [of 0] unfolding e by (cases "snd (snd (history s ! 0))") simp
  have k1: "fst (snd (history s ! 1)) = PosInf"
    "snd (snd (history s ! 1)) = \<lparr>best_mse = PosInf, no_improvement_count = 0\<rparr>"
    using n [of 1] unfolding e by (cases "snd (snd (history s ! 1))", simp)+
  have sb: "stopping_before (history s) 1 = \<lparr>best_mse = PosInf, no_improvement_count = 0\<rparr>"
    using k0 by (simp add: stopping_before_def)
  have i: "\<not> improvement_exceeds PosInf PosInf" "\<not> improvement_exceeds PosInf NaN"
    "\<not> improvement_exceeds NaN NaN"
    by (simp_all add: improvement_exceeds_def dgreater_def dsub_def std_max_def to_double_small)
  have r: "\<not> rule_without_finiteness_test (fst (snd (history s ! 1)))
            (stopping_before (history s) 1) (snd (snd (history s ! 1)))"
    unfolding k1 sb using i(1) by (simp add: rule_without_finiteness_test_def)
  show ?thesis
  proof (intro exI conjI)
    show "overflowing_run = Inr s" by (rule s)
    show "length (history s) = 1000" by (rule l)
    show "epoch_summary (history s) =
         (PosInf, PosInf, 0) # (PosInf, PosInf, 0) # replicate 998 (NaN, NaN, 0)" by (rule e)
    show "no_improvement_count (stopping_of s) = 0" unfolding st by simp
    show "stopping_before (history s) 1 = \<lparr>best_mse = PosInf, no_improvement_count = 0\<rparr>"
      by (rule sb)
    show "fst (snd (history s ! 1)) = PosInf" by (rule k1(1))
    show "snd (snd (history s ! 1)) = \<lparr>best_mse = PosInf, no_improvement_count = 0\<rparr>"
      by (rule k1(2))
    show "\<not> improvement_exceeds PosInf PosInf" by (rule i(1))
    show "\<not> improvement_exceeds PosInf NaN" by (rule i(2))
    show "\<not> improvement_exceeds NaN NaN" by (rule i(3))
    show "\<not> rule_without_finiteness_test (fst (snd (history s ! 1)))
            (stopping_before (history s) 1) (snd (snd (history s ! 1)))" by (rule r)
  qed
qed

section \<open>Properties of the neural network\<close>

subsection \<open>The helpers and the frame of the forward pass\<close>

lemma multiply_mv_error: "multiply_mv M v = Inl e \<Longrightarrow> e = InvalidArgument"
  by (auto simp: multiply_mv_def Let_def split: if_splits)

lemma add_error: "add a b = Inl e \<Longrightarrow> e = InvalidArgument"
  by (auto simp: add_def split: if_splits)

lemma weighted_input_error: "weighted_input nn i v = Inl e \<Longrightarrow> e = InvalidArgument"
  by (auto simp: weighted_input_def split: sum.splits dest: multiply_mv_error add_error)

lemma multiply_mv_Inr:
  "M \<noteq> [] \<Longrightarrow> length (M ! 0) = length v \<Longrightarrow>
   multiply_mv M v = Inr (map (\<lambda>r. \<Sum>c<length v. M ! r ! c * v ! c) [0..<length M])"
  by (simp add: multiply_mv_def Let_def fold_add_sum)

lemma weighted_input_same:
  "same_parameters nn nn' \<Longrightarrow> weighted_input nn' i v = weighted_input nn i v"
  by (auto simp: weighted_input_def same_parameters_def split: sum.splits)

lemma activation_same:
  "same_parameters nn nn' \<Longrightarrow> activation nn' i z = activation nn i z"
  by (simp add: activation_def same_parameters_def)

lemma same_parameters_refl [simp]: "same_parameters nn nn"
  by (simp add: same_parameters_def)

lemma same_parameters_trans:
  "same_parameters a b \<Longrightarrow> same_parameters b c \<Longrightarrow> same_parameters a c"
  by (simp add: same_parameters_def)

lemma predict_layers_same:
  "same_parameters nn nn' \<Longrightarrow> predict_layers nn' is v = predict_layers nn is v"
  by (induction "is" arbitrary: v)
     (simp_all add: weighted_input_same activation_same split: sum.splits)

lemma forward_layers_same: "same_parameters nn (snd (forward_layers is v nn))"
proof (induction "is" arbitrary: v nn)
  case Nil
  show ?case by simp
next
  case (Cons i rest)
  show ?case
  proof (cases "weighted_input nn i v")
    case (Inl e)
    then show ?thesis by simp
  next
    case (Inr z)
    let ?nn2 = "nn\<lparr>layer_inputs := (layer_inputs nn)[i := z],
                 layer_outputs := (layer_outputs nn)[i + 1 := activation nn i z]\<rparr>"
    have "same_parameters nn ?nn2" by (simp add: same_parameters_def)
    from same_parameters_trans [OF this Cons.IH [where v = "activation nn i z" and nn = ?nn2]] Inr
    show ?thesis by simp
  qed
qed

lemma forward_layers_predict_layers: "fst (forward_layers is v nn) = predict_layers nn is v"
proof (induction "is" arbitrary: v nn)
  case Nil
  show ?case by simp
next
  case (Cons i rest)
  show ?case
  proof (cases "weighted_input nn i v")
    case (Inl e)
    then show ?thesis by simp
  next
    case (Inr z)
    let ?nn2 = "nn\<lparr>layer_inputs := (layer_inputs nn)[i := z],
                 layer_outputs := (layer_outputs nn)[i + 1 := activation nn i z]\<rparr>"
    have "same_parameters nn ?nn2" by (simp add: same_parameters_def)
    with Cons.IH [where v = "activation nn i z" and nn = ?nn2] Inr show ?thesis
      by (simp add: predict_layers_same)
  qed
qed

lemma predict_layers_error: "predict_layers nn is v = Inl e \<Longrightarrow> e = InvalidArgument"
  by (induction "is" arbitrary: v) (auto split: sum.splits dest: weighted_input_error)

lemma forward_pass_same: "same_parameters nn (snd (forward_pass nn input))"
proof (cases "length input = layer_sizes nn ! 0")
  case False
  then show ?thesis by (simp add: forward_pass_def)
next
  case True
  let ?nn0 = "nn\<lparr>layer_outputs := (replicate (length (layer_sizes nn)) [])[0 := input],
                 layer_inputs := replicate (length (layer_sizes nn) - 1) []\<rparr>"
  have "same_parameters nn ?nn0" by (simp add: same_parameters_def)
  from same_parameters_trans [OF this forward_layers_same] True
  show ?thesis by (simp add: forward_pass_def)
qed

lemma forward_pass_predict: "fst (forward_pass nn input) = fst (predict nn input)"
proof -
  let ?nn0 = "nn\<lparr>layer_outputs := (replicate (length (layer_sizes nn)) [])[0 := input],
                 layer_inputs := replicate (length (layer_sizes nn) - 1) []\<rparr>"
  have "same_parameters nn ?nn0" by (simp add: same_parameters_def)
  then show ?thesis
    by (simp add: forward_pass_def predict_def forward_layers_predict_layers predict_layers_same)
qed

lemma weighted_input_wf:
  assumes "wf_network nn" "i < length (layer_sizes nn) - 1" "length v = layer_sizes nn ! i"
  shows "weighted_input nn i v =
     (if layer_sizes nn ! (i + 1) = 0 then Inl InvalidArgument
      else Inr (map (\<lambda>r. (\<Sum>c<layer_sizes nn ! i. weights nn ! i ! r ! c * v ! c) + biases nn ! i ! r)
                 [0..<layer_sizes nn ! (i + 1)]))"
proof -
  from assms have W: "length (weights nn ! i) = layer_sizes nn ! (i + 1)"
    and R: "\<forall>row\<in>set (weights nn ! i). length row = layer_sizes nn ! i"
    and B: "length (biases nn ! i) = layer_sizes nn ! (i + 1)"
    by (auto simp: wf_network_def)
  show ?thesis
  proof (cases "layer_sizes nn ! (i + 1) = 0")
    case True
    with W show ?thesis by (simp add: weighted_input_def multiply_mv_def)
  next
    case False
    with W have ne: "weights nn ! i \<noteq> []" by auto
    with R have "length (weights nn ! i ! 0) = length v" using assms(3)
      by (metis length_greater_0_conv nth_mem)
    from multiply_mv_Inr [OF ne this] False W B assms(3) show ?thesis
      by (auto simp: weighted_input_def add_def intro!: nth_equalityI)
  qed
qed

subsection \<open>The forward pass computes the layer-by-layer mathematics\<close>

lemma length_affine [simp]: "length (affine nn l a) = layer_sizes nn ! (l + 1)"
  by (simp add: affine_def)

lemma length_activation_at_Suc [simp]:
  "length (activation_at nn input (Suc l)) = layer_sizes nn ! (Suc l)"
  by simp

lemma length_activation_at:
  "length input = layer_sizes nn ! 0 \<Longrightarrow> length (activation_at nn input k) = layer_sizes nn ! k"
  by (cases k) simp_all

lemma length_preactivation_at [simp]:
  "length (preactivation_at nn input l) = layer_sizes nn ! (l + 1)"
  by (simp add: preactivation_at_def)

lemma weighted_input_affine:
  assumes "wf_network nn" "i < length (layer_sizes nn) - 1" "length v = layer_sizes nn ! i"
    and "0 < layer_sizes nn ! (i + 1)"
  shows "weighted_input nn i v = Inr (affine nn i v)"
  using weighted_input_wf [OF assms(1-3)] assms(4) by (simp add: affine_def)

lemma weighted_input_zero:
  assumes "wf_network nn" "i < length (layer_sizes nn) - 1" "length v = layer_sizes nn ! i"
    and "layer_sizes nn ! (i + 1) = 0"
  shows "weighted_input nn i v = Inl InvalidArgument"
  using weighted_input_wf [OF assms(1-3)] assms(4) by simp

lemma activation_length [simp]: "length (activation nn i z) = length z"
  by (simp add: activation_def)

lemma activation_at_step:
  "activation nn l (affine nn l (activation_at nn input l)) = activation_at nn input (Suc l)"
  by (simp add: activation_def)

lemma predict_layers_wf:
  assumes "wf_network nn"
  shows "k \<le> length (layer_sizes nn) - 1 \<Longrightarrow> length v = layer_sizes nn ! k \<Longrightarrow>
     (if \<forall>i\<in>{Suc k..<length (layer_sizes nn)}. 0 < layer_sizes nn ! i
      then \<exists>out. predict_layers nn [k..<length (layer_sizes nn) - 1] v = Inr out
             \<and> length out = layer_sizes nn ! (length (layer_sizes nn) - 1)
      else predict_layers nn [k..<length (layer_sizes nn) - 1] v = Inl InvalidArgument)"
proof (induction "length (layer_sizes nn) - 1 - k" arbitrary: k v)
  case 0
  then have "k = length (layer_sizes nn) - 1" by simp
  with 0 assms show ?case by (auto simp: wf_network_def)
next
  case (Suc d)
  let ?n = "length (layer_sizes nn)"
  from Suc.hyps(2) have k: "k < ?n - 1" by simp
  then have upt: "[k..<?n - 1] = k # [Suc k..<?n - 1]" by (simp add: upt_conv_Cons)
  have split: "(\<forall>i\<in>{Suc k..<?n}. 0 < layer_sizes nn ! i) \<longleftrightarrow>
      0 < layer_sizes nn ! Suc k \<and> (\<forall>i\<in>{Suc (Suc k)..<?n}. 0 < layer_sizes nn ! i)"
  proof -
    have "{Suc k..<?n} = insert (Suc k) {Suc (Suc k)..<?n}" using k by auto
    then show ?thesis by simp
  qed
  show ?case
  proof (cases "layer_sizes nn ! Suc k = 0")
    case True
    with weighted_input_zero [OF assms k Suc.prems(2)]
    have w0: "weighted_input nn k v = Inl InvalidArgument" by simp
    show ?thesis unfolding upt split using True by (simp add: w0)
  next
    case False
    then have pos: "0 < layer_sizes nn ! (k + 1)" by simp
    have w: "weighted_input nn k v = Inr (affine nn k v)"
      by (rule weighted_input_affine [OF assms k Suc.prems(2) pos])
    have d: "d = ?n - 1 - Suc k" using Suc.hyps(2) by simp
    have len: "length (activation nn k (affine nn k v)) = layer_sizes nn ! Suc k" by simp
    from Suc.hyps(1) [OF d _ len] k
    have IH: "(if \<forall>i\<in>{Suc (Suc k)..<?n}. 0 < layer_sizes nn ! i
      then \<exists>out. predict_layers nn [Suc k..<?n - 1] (activation nn k (affine nn k v)) = Inr out
             \<and> length out = layer_sizes nn ! (?n - 1)
      else predict_layers nn [Suc k..<?n - 1] (activation nn k (affine nn k v)) = Inl InvalidArgument)"
      by simp
    show ?thesis
      unfolding upt split using False IH by (auto simp: w split: if_splits)
  qed
qed

lemma update_append_replicate:
  "length xs = k \<Longrightarrow> (xs @ replicate (Suc j) v)[k := w] = (xs @ [w]) @ replicate j v"
  by (simp add: list_update_append)

lemma forward_state_same [simp]: "same_parameters nn (forward_state nn input k)"
  by (simp add: same_parameters_def forward_state_def)

lemma forward_state_step:
  assumes "k < length (layer_sizes nn) - 1"
  shows "(forward_state nn input k)
           \<lparr>layer_inputs := (layer_inputs (forward_state nn input k))[k := preactivation_at nn input k],
            layer_outputs := (layer_outputs (forward_state nn input k))[k + 1 := activation_at nn input (Suc k)]\<rparr>
         = forward_state nn input (Suc k)"
proof -
  let ?m = "length (layer_sizes nn) - 1"
  from assms have m: "?m - k = Suc (?m - Suc k)" by simp
  have 1: "(map (preactivation_at nn input) [0..<k] @ replicate (?m - k) [])[k := preactivation_at nn input k]
      = map (preactivation_at nn input) [0..<Suc k] @ replicate (?m - Suc k) []"
    unfolding m by (subst update_append_replicate) simp_all
  have 2: "(map (activation_at nn input) [0..<Suc k] @ replicate (?m - k) [])[Suc k := activation_at nn input (Suc k)]
      = map (activation_at nn input) [0..<Suc (Suc k)] @ replicate (?m - Suc k) []"
    unfolding m by (subst update_append_replicate) simp_all
  show ?thesis
    unfolding forward_state_def using 1 2 by (simp del: activation_at.simps upt_Suc)
qed

lemma forward_layers_state:
  assumes "wf_network nn" "length input = layer_sizes nn ! 0" "later_layers_positive nn"
  shows "k \<le> length (layer_sizes nn) - 1 \<Longrightarrow>
     forward_layers [k..<length (layer_sizes nn) - 1] (activation_at nn input k) (forward_state nn input k)
       = (Inr (network_output nn input), forward_state nn input (length (layer_sizes nn) - 1))"
proof (induction "length (layer_sizes nn) - 1 - k" arbitrary: k)
  case 0
  then have "k = length (layer_sizes nn) - 1" by simp
  then show ?case by (simp add: network_output_def)
next
  case (Suc d)
  let ?n = "length (layer_sizes nn)"
  let ?st = "forward_state nn input k"
  from Suc.hyps(2) have k: "k < ?n - 1" by simp
  then have upt: "[k..<?n - 1] = k # [Suc k..<?n - 1]" by (simp add: upt_conv_Cons)
  from assms(3) k have pos: "0 < layer_sizes nn ! (k + 1)"
    by (simp add: later_layers_positive_def)
  have "weighted_input nn k (activation_at nn input k) = Inr (affine nn k (activation_at nn input k))"
    by (rule weighted_input_affine [OF assms(1) k length_activation_at [OF assms(2)] pos])
  then have w: "weighted_input ?st k (activation_at nn input k) = Inr (preactivation_at nn input k)"
    by (simp add: weighted_input_same [OF forward_state_same] preactivation_at_def)
  have a: "activation ?st k (preactivation_at nn input k) = activation_at nn input (Suc k)"
    by (simp add: activation_same [OF forward_state_same] preactivation_at_def activation_at_step
        del: activation_at.simps)
  have d: "d = ?n - 1 - Suc k" using Suc.hyps(2) by simp
  have "forward_layers [k..<?n - 1] (activation_at nn input k) ?st
      = forward_layers [Suc k..<?n - 1] (activation_at nn input (Suc k)) (forward_state nn input (Suc k))"
    unfolding upt forward_layers.simps w sum.case a forward_state_step [OF k] ..
  also have "\<dots> = (Inr (network_output nn input), forward_state nn input (?n - 1))"
    using Suc.hyps(1) [OF d] k by simp
  finally show ?case .
qed

lemma forward_pass_success:
  assumes "wf_network nn" "length input = layer_sizes nn ! 0" "later_layers_positive nn"
  shows "forward_pass nn input
     = (Inr (network_output nn input), forward_state nn input (length (layer_sizes nn) - 1))"
proof -
  from assms(1) have n: "2 \<le> length (layer_sizes nn)" by (simp add: wf_network_def)
  then obtain n' where n': "length (layer_sizes nn) = Suc n'" by (cases "length (layer_sizes nn)") auto
  have init: "nn\<lparr>layer_outputs := (replicate (length (layer_sizes nn)) [])[0 := input],
               layer_inputs := replicate (length (layer_sizes nn) - 1) []\<rparr> = forward_state nn input 0"
    by (simp add: forward_state_def n')
  from forward_layers_state [OF assms, of 0] assms(2) show ?thesis
    unfolding forward_pass_def init by simp
qed

lemma forward_pass_failure:
  assumes "wf_network nn" "\<not> (length input = layer_sizes nn ! 0 \<and> later_layers_positive nn)"
  shows "fst (forward_pass nn input) = Inl InvalidArgument"
proof (cases "length input = layer_sizes nn ! 0")
  case False
  then show ?thesis by (simp add: forward_pass_def)
next
  case True
  with assms(2) have "\<not> (\<forall>i\<in>{Suc 0..<length (layer_sizes nn)}. 0 < layer_sizes nn ! i)"
    by (simp add: later_layers_positive_def)
  with predict_layers_wf [OF assms(1) _ True] True show ?thesis
    by (simp add: forward_pass_predict predict_def)
qed

subsection \<open>The backward pass computes the deltas and the update\<close>

declare delta_at.simps [simp del]

lemma map2_nth:
  "length xs = length ys \<Longrightarrow> map2 f xs ys = map (\<lambda>j. f (xs ! j) (ys ! j)) [0..<length xs]"
  by (intro nth_equalityI) simp_all

lemma forward_state_final:
  assumes "2 \<le> length (layer_sizes nn)"
  shows "layer_inputs (forward_state nn input (length (layer_sizes nn) - 1))
           = map (preactivation_at nn input) [0..<length (layer_sizes nn) - 1]"
    and "layer_outputs (forward_state nn input (length (layer_sizes nn) - 1))
           = map (activation_at nn input) [0..<length (layer_sizes nn)]"
proof -
  from assms have "Suc (length (layer_sizes nn) - 1) = length (layer_sizes nn)" by simp
  then show "layer_outputs (forward_state nn input (length (layer_sizes nn) - 1))
           = map (activation_at nn input) [0..<length (layer_sizes nn)]"
    by (simp add: forward_state_def del: upt_Suc)
qed (simp add: forward_state_def)

lemma last_layer_size:
  "2 \<le> length (layer_sizes nn) \<Longrightarrow> last (layer_sizes nn) = layer_sizes nn ! (length (layer_sizes nn) - 1)"
  by (rule last_conv_nth) auto

lemma length_delta_at:
  assumes "2 \<le> length (layer_sizes nn)" "l \<le> length (layer_sizes nn) - 2"
  shows "length (delta_at nn input target l) = layer_sizes nn ! (l + 1)"
proof (cases "length (layer_sizes nn) \<le> l + 2")
  case True
  with assms have "l + 1 = length (layer_sizes nn) - 1" by simp
  with True assms(1) show ?thesis
    by (subst delta_at.simps) (simp add: last_layer_size)
next
  case False
  then show ?thesis by (subst delta_at.simps) (simp add: Let_def)
qed

lemma transpose_multiply:
  assumes "M \<noteq> []" "\<forall>row\<in>set M. length row = c" "0 < c" "length d = length M"
  shows "multiply_mv (transpose_matrix M) d
           = Inr (map (\<lambda>j. \<Sum>r<length M. M ! r ! j * d ! r) [0..<c])"
proof -
  from assms(1,2) have c: "length (M ! 0) = c" by (metis length_greater_0_conv nth_mem)
  have T: "transpose_matrix M = map (\<lambda>j. map (\<lambda>i. M ! i ! j) [0..<length M]) [0..<c]"
    using assms(1) by (simp add: transpose_matrix_def Let_def c)
  have ne: "transpose_matrix M \<noteq> []" using assms(3) by (simp add: T)
  have l0: "length (transpose_matrix M ! 0) = length d" using assms(3,4) by (simp add: T)
  show ?thesis
    unfolding multiply_mv_Inr [OF ne l0] using assms(4) by (simp add: T)
qed

lemma elementwise_multiply_nth:
  "length a = length b \<Longrightarrow> elementwise_multiply a b = Inr (map (\<lambda>j. a ! j * b ! j) [0..<length a])"
  by (simp add: elementwise_multiply_def map2_nth)

lemma update_replicate_append:
  "(replicate (Suc j) v @ ys)[j := w] = replicate j v @ w # ys"
  by (induction j) simp_all


lemma propagate_deltas_spec:
  assumes wf: "wf_network nn" and pos: "later_layers_positive nn"
    and same: "same_parameters nn nn1"
    and z: "layer_inputs nn1 = map (preactivation_at nn input) [0..<length (layer_sizes nn) - 1]"
  shows "j \<le> length (layer_sizes nn) - 2 \<Longrightarrow>
     propagate_deltas nn1 (rev [1..<Suc j])
        (replicate j [] @ map (delta_at nn input target) [j..<length (layer_sizes nn) - 1])
       = Inr (map (delta_at nn input target) [0..<length (layer_sizes nn) - 1])"
proof (induction j)
  case 0
  show ?case by simp
next
  case (Suc j)
  let ?n = "length (layer_sizes nn)"
  let ?d = "delta_at nn input target"
  let ?i = "Suc j"
  from wf have n: "2 \<le> ?n" by (simp add: wf_network_def)
  from Suc.prems have i: "?i < ?n - 1" "j < ?n - 1" "?i \<le> ?n - 2" "\<not> ?n \<le> j + 2" by simp_all
  from wf i(1) have W: "length (weights nn ! ?i) = layer_sizes nn ! (?i + 1)"
    "\<forall>row\<in>set (weights nn ! ?i). length row = layer_sizes nn ! ?i"
    by (simp_all add: wf_network_def)
  from pos i(1) have p: "0 < layer_sizes nn ! ?i" "0 < layer_sizes nn ! (?i + 1)"
    by (simp_all add: later_layers_positive_def)
  from W(1) p(2) have ne: "weights nn ! ?i \<noteq> []" by auto
  let ?ds = "replicate ?i [] @ map ?d [?i..<?n - 1]"
  have di: "?ds ! ?i = ?d ?i" using i(1) by (simp add: nth_append)
  have ld: "length (?d ?i) = length (weights nn ! ?i)"
    using length_delta_at [OF n i(3)] W(1) by simp
  have mv: "multiply_mv (transpose_matrix (weights nn1 ! ?i)) (?ds ! ?i)
      = Inr (map (\<lambda>c. \<Sum>r<layer_sizes nn ! (?i + 1). weights nn ! ?i ! r ! c * ?d ?i ! r)
               [0..<layer_sizes nn ! ?i])"
    unfolding di using transpose_multiply [OF ne W(2) p(1) ld] same
    by (simp add: W(1) same_parameters_def)
  have zj: "layer_inputs nn1 ! (?i - 1) = preactivation_at nn input j" using i(2) by (simp add: z)
  have dj: "?d j = map (\<lambda>c. (\<Sum>r<layer_sizes nn ! (?i + 1). weights nn ! ?i ! r ! c * ?d ?i ! r)
                        * sigmoid_derivative (preactivation_at nn input j ! c))
                 [0..<layer_sizes nn ! ?i]"
    using i(4) by (subst delta_at.simps) (simp add: Let_def)
  have em: "elementwise_multiply
        (map (\<lambda>c. \<Sum>r<layer_sizes nn ! (?i + 1). weights nn ! ?i ! r ! c * ?d ?i ! r)
               [0..<layer_sizes nn ! ?i])
        (map sigmoid_derivative (layer_inputs nn1 ! (?i - 1))) = Inr (?d j)"
    unfolding zj by (subst elementwise_multiply_nth) (auto simp: dj)
  have upd: "?ds[?i - 1 := ?d j] = replicate j [] @ map ?d [j..<?n - 1]"
    using i(2) by (simp add: update_replicate_append upt_conv_Cons del: replicate_Suc)
  have "propagate_deltas nn1 (rev [1..<Suc ?i]) ?ds
      = propagate_deltas nn1 (rev [1..<Suc j]) (?ds[?i - 1 := ?d j])"
  proof -
    have rv: "rev [1..<Suc ?i] = ?i # rev [1..<Suc j]" by simp
    show ?thesis unfolding rv propagate_deltas.simps mv sum.case em ..
  qed
  also have "\<dots> = Inr (map ?d [0..<?n - 1])"
    unfolding upd using Suc.IH Suc.prems by simp
  finally show ?case .
qed

lemma update_replicate_last: "(replicate (Suc j) v)[j := w] = replicate j v @ [w]"
  by (induction j) simp_all

lemma compute_deltas_spec:
  assumes wf: "wf_network nn" and pos: "later_layers_positive nn"
    and same: "same_parameters nn nn1"
    and z: "layer_inputs nn1 = map (preactivation_at nn input) [0..<length (layer_sizes nn) - 1]"
    and t: "length target = last (layer_sizes nn)"
  shows "compute_deltas nn1 (network_output nn input) target
           = Inr (map (delta_at nn input target) [0..<length (layer_sizes nn) - 1])"
proof -
  let ?n = "length (layer_sizes nn)"
  let ?d = "delta_at nn input target"
  from wf have n: "2 \<le> ?n" by (simp add: wf_network_def)
  then have "?n = Suc (Suc (?n - 2))" by simp
  then obtain m where m: "?n = Suc (Suc m)" ..
  have lo: "length (network_output nn input) = last (layer_sizes nn)"
    by (simp add: network_output_def m last_layer_size [OF n])
  have dl: "?d (?n - 2) = map2 (-) (network_output nn input) target"
    using t lo by (subst delta_at.simps) (simp add: m map2_nth)
  have msed: "mean_squared_error_derivative (network_output nn input) target = Inr (?d (?n - 2))"
    using t lo by (simp add: mean_squared_error_derivative_def subtract_def dl)
  have init: "(replicate (?n - 1) [])[length (replicate (?n - 1) ([]::real list)) - 1 := ?d (?n - 2)]
      = replicate (?n - 2) [] @ map ?d [?n - 2..<?n - 1]"
    by (simp add: m update_replicate_last del: replicate_Suc)
  have rv: "rev [1..<?n - 1] = rev [1..<Suc (?n - 2)]" by (simp add: m)
  from same have ls: "layer_sizes nn1 = layer_sizes nn" by (simp add: same_parameters_def)
  show ?thesis
    unfolding compute_deltas_def Let_def ls msed sum.case init rv
    by (rule propagate_deltas_spec [OF wf pos same z]) simp
qed

lemma subtract_outer:
  assumes "length W = length d" "\<forall>row\<in>set W. length row = length a"
  shows "subtract_m W (multiply_ms (outer_product d a) lr)
     = Inr (map (\<lambda>r. map (\<lambda>c. W ! r ! c - lr * (d ! r * a ! c)) [0..<length a]) [0..<length d])"
proof -
  let ?M = "multiply_ms (outer_product d a) lr"
  have M: "?M = map (\<lambda>i. map (\<lambda>j. d ! i * a ! j * lr) [0..<length a]) [0..<length d]"
    by (simp add: multiply_ms_def outer_product_def Let_def)
  have chk: "\<not> (length W \<noteq> length ?M \<or> (W \<noteq> [] \<and> length (W ! 0) \<noteq> length (?M ! 0)))"
  proof (cases "W = []")
    case True
    with assms(1) show ?thesis by (simp add: multiply_ms_def outer_product_def)
  next
    case False
    with assms(2) have "length (W ! 0) = length a" by simp
    moreover from False assms(1) have "0 < length d" by auto
    ultimately show ?thesis using assms(1) by (simp add: M)
  qed
  have row: "\<And>i. i < length W \<Longrightarrow> map2 (-) (W ! i) (?M ! i)
      = map (\<lambda>c. W ! i ! c - lr * (d ! i * a ! c)) [0..<length a]"
  proof -
    fix i assume i: "i < length W"
    with assms(2) have l: "length (W ! i) = length a" by simp
    from i assms(1) have Mi: "?M ! i = map (\<lambda>j. d ! i * a ! j * lr) [0..<length a]"
      by (simp add: M)
    show "map2 (-) (W ! i) (?M ! i) = map (\<lambda>c. W ! i ! c - lr * (d ! i * a ! c)) [0..<length a]"
      unfolding Mi by (subst map2_nth) (auto simp: l mult.commute)
  qed
  show ?thesis
    unfolding subtract_m_def using chk assms(1) by (simp add: row cong: map_cong)
qed

lemma subtract_scaled:
  assumes "length b = length d"
  shows "subtract b (multiply_vs d lr) = Inr (map (\<lambda>r. b ! r - lr * d ! r) [0..<length d])"
  using assms by (simp add: subtract_def multiply_vs_def map2_nth mult.commute)

lemma update_append_drop:
  "length xs = k \<Longrightarrow> k < length ys \<Longrightarrow> (xs @ drop k ys)[k := w] = (xs @ [w]) @ drop (Suc k) ys"
  by (simp add: list_update_append Cons_nth_drop_Suc [symmetric])


lemma update_layers_spec:
  assumes wf: "wf_network nn" and same: "same_parameters nn nn1"
    and inp: "length input = layer_sizes nn ! 0"
    and a: "layer_outputs nn1 = map (activation_at nn input) [0..<length (layer_sizes nn)]"
  shows "k \<le> length (layer_sizes nn) - 1 \<Longrightarrow>
     update_layers [k..<length (layer_sizes nn) - 1]
        (map (delta_at nn input target) [0..<length (layer_sizes nn) - 1])
        (update_state nn nn1 input target k)
       = (Inr (), update_state nn nn1 input target (length (layer_sizes nn) - 1))"
proof (induction "length (layer_sizes nn) - 1 - k" arbitrary: k)
  case 0
  then have "k = length (layer_sizes nn) - 1" by simp
  then show ?case by simp
next
  case (Suc d)
  let ?n = "length (layer_sizes nn)"
  let ?ds = "map (delta_at nn input target) [0..<?n - 1]"
  let ?st = "update_state nn nn1 input target k"
  from wf have n: "2 \<le> ?n" by (simp add: wf_network_def)
  from Suc.hyps(2) have k: "k < ?n - 1" "k \<le> ?n - 2" "k < ?n" by simp_all
  then have upt: "[k..<?n - 1] = k # [Suc k..<?n - 1]" by (simp add: upt_conv_Cons)
  from wf k(1) have W: "length (weights nn ! k) = layer_sizes nn ! (k + 1)"
    "\<forall>row\<in>set (weights nn ! k). length row = layer_sizes nn ! k"
    "length (biases nn ! k) = layer_sizes nn ! (k + 1)"
    "length (weights nn) = ?n - 1" "length (biases nn) = ?n - 1"
    by (simp_all add: wf_network_def)
  have dk: "?ds ! k = delta_at nn input target k" using k(1) by simp
  have ld: "length (delta_at nn input target k) = layer_sizes nn ! (k + 1)"
    by (rule length_delta_at [OF n k(2)])
  have wk: "weights ?st ! k = weights nn ! k" "biases ?st ! k = biases nn ! k"
    using k(1) W(4,5) by (simp_all add: update_state_def nth_append)
  have ak: "layer_outputs ?st ! k = activation_at nn input k"
    using k(3) by (simp add: update_state_def a del: activation_at.simps)
  have lr: "nn_learning_rate ?st = nn_learning_rate nn"
    using same by (simp add: update_state_def same_parameters_def)
  have la: "length (activation_at nn input k) = layer_sizes nn ! k"
    by (rule length_activation_at [OF inp])
  have sw: "subtract_m (weights ?st ! k)
        (multiply_ms (outer_product (?ds ! k) (layer_outputs ?st ! k)) (nn_learning_rate ?st))
      = Inr (updated_weights nn input target k)"
    unfolding wk dk ak lr
    by (subst subtract_outer) (simp_all add: W ld la updated_weights_def del: activation_at.simps)
  have sb: "subtract (biases ?st ! k) (multiply_vs (?ds ! k) (nn_learning_rate ?st))
      = Inr (updated_biases nn input target k)"
    unfolding wk dk lr
    by (subst subtract_scaled) (simp_all add: W ld updated_biases_def)
  have next_state: "?st\<lparr>weights := (weights ?st)[k := updated_weights nn input target k],
                       biases := (biases ?st)[k := updated_biases nn input target k]\<rparr>
      = update_state nn nn1 input target (Suc k)"
    using k(1) W(4,5) by (simp add: update_state_def update_append_drop)
  have d: "d = ?n - 1 - Suc k" using Suc.hyps(2) by simp
  have "update_layers [k..<?n - 1] ?ds ?st
      = update_layers [Suc k..<?n - 1] ?ds (update_state nn nn1 input target (Suc k))"
    unfolding upt update_layers.simps sw sb sum.case next_state ..
  also have "\<dots> = (Inr (), update_state nn nn1 input target (?n - 1))"
    using Suc.hyps(1) [OF d] k by simp
  finally show ?case .
qed

lemma backpropagate_success:
  assumes wf: "wf_network nn" and inp: "length input = layer_sizes nn ! 0"
    and pos: "later_layers_positive nn" and t: "length target = last (layer_sizes nn)"
  shows "backpropagate nn input target = (Inr (), sgd_step nn input target)"
proof -
  let ?n = "length (layer_sizes nn)"
  let ?nn1 = "forward_state nn input (?n - 1)"
  from wf have n: "2 \<le> ?n" and lw: "length (weights nn) = ?n - 1" "length (biases nn) = ?n - 1"
    by (simp_all add: wf_network_def)
  have fp: "forward_pass nn input = (Inr (network_output nn input), ?nn1)"
    by (rule forward_pass_success [OF wf inp pos])
  have same: "same_parameters nn ?nn1" by simp
  then have ls: "layer_sizes ?nn1 = layer_sizes nn" by (simp add: same_parameters_def)
  have cd: "compute_deltas ?nn1 (network_output nn input) target
      = Inr (map (delta_at nn input target) [0..<?n - 1])"
    by (rule compute_deltas_spec [OF wf pos same forward_state_final(1) [OF n] t])
  have st0: "update_state nn ?nn1 input target 0 = ?nn1"
    by (simp add: update_state_def forward_state_def)
  have stn: "update_state nn ?nn1 input target (?n - 1) = sgd_step nn input target"
    using forward_state_final [OF n, of input] lw
    by (simp add: update_state_def sgd_step_def forward_state_def)
  from update_layers_spec [OF wf same inp forward_state_final(2) [OF n], of 0 target]
  have ul: "update_layers [0..<?n - 1] (map (delta_at nn input target) [0..<?n - 1]) ?nn1
      = (Inr (), sgd_step nn input target)"
    unfolding st0 stn by simp
  show ?thesis
    unfolding backpropagate_def fp prod.case sum.case ls cd using t ul by simp
qed

lemma backpropagate_failure:
  assumes wf: "wf_network nn"
    and bad: "\<not> (length input = layer_sizes nn ! 0 \<and> later_layers_positive nn
                \<and> length target = last (layer_sizes nn))"
  shows "fst (backpropagate nn input target) = Inl InvalidArgument
       \<and> same_parameters nn (snd (backpropagate nn input target))"
proof (cases "length input = layer_sizes nn ! 0 \<and> later_layers_positive nn")
  case False
  from forward_pass_failure [OF wf False]
  obtain nn1 where fp: "forward_pass nn input = (Inl InvalidArgument, nn1)"
    by (cases "forward_pass nn input") auto
  from forward_pass_same [of nn input] fp have "same_parameters nn nn1" by simp
  then show ?thesis by (simp add: backpropagate_def fp)
next
  case True
  with bad have t: "length target \<noteq> last (layer_sizes nn)" by simp
  let ?nn1 = "forward_state nn input (length (layer_sizes nn) - 1)"
  from True have fp: "forward_pass nn input = (Inr (network_output nn input), ?nn1)"
    by (simp add: forward_pass_success [OF wf])
  have "layer_sizes ?nn1 = layer_sizes nn" by (simp add: forward_state_def)
  with t show ?thesis by (simp add: backpropagate_def fp)
qed

subsection \<open>Construction, prediction and one step of backpropagation\<close>

lemma wf_degenerate: "wf_network degenerate_network"
  by (simp add: wf_network_def degenerate_network_def eval_nat_numeral atLeast0_lessThan_Suc)

lemma wf_small: "wf_network small_network"
  by (simp add: wf_network_def small_network_def eval_nat_numeral atLeast0_lessThan_Suc)

lemma pos_small: "later_layers_positive small_network"
  by (simp add: later_layers_positive_def small_network_def eval_nat_numeral atLeastLessThanSuc)

lemma not_pos_degenerate: "\<not> later_layers_positive degenerate_network"
  by (simp add: later_layers_positive_def degenerate_network_def eval_nat_numeral atLeastLessThanSuc)

lemma construct_degenerate:
  "new_NeuralNetwork (\<lambda>i r c. 0) (\<lambda>i r. 0) [1, 0, 1] (1 / 100) = Inr degenerate_network"
  by (simp add: new_NeuralNetwork_def initialize_weights_biases_def degenerate_network_def
      eval_nat_numeral)

lemma predict_degenerate: "predict degenerate_network [0] = (Inl InvalidArgument, degenerate_network)"
  by (simp add: predict_def degenerate_network_def weighted_input_def multiply_mv_def
      eval_nat_numeral upt_conv_Cons)

lemma sigmoid_0 [simp]: "sigmoid 0 = 1 / 2" "sigmoid_derivative 0 = 1 / 4"
  by (simp_all add: sigmoid_def sigmoid_derivative_def)

lemma sgd_small:
  "sgd_step small_network [2] [0] =
     small_network\<lparr>weights := [[[- 1]], [[3 / 2]]], biases := [[- 1 / 2], [- 1]],
                   layer_outputs := [[2], [1 / 2], [1]], layer_inputs := [[0], [1]]\<rparr>"
  apply (simp add: sgd_step_def small_network_def updated_weights_def updated_biases_def
      eval_nat_numeral upt_conv_Cons)
  apply (simp add: delta_at.simps [of _ _ _ 0] delta_at.simps [of _ _ _ "Suc 0"] Let_def
      network_output_def preactivation_at_def affine_def eval_nat_numeral upt_conv_Cons)
  done


text \<open>
  Claim C10. Construction throws \<open>InvalidArgument\<close> exactly when \<open>layer_sizes\<close> has fewer than 2
  entries, and returns an object with these sizes otherwise; the entries are not looked at:
  \<open>{1, 0, 1}\<close> is accepted and gives an empty first weight matrix and a second one with one
  empty row.
\<close>

theorem construction_validates_length_only:
  "(new_NeuralNetwork dis bias_dis sizes lr = Inl InvalidArgument) = (length sizes < 2)
   \<and> (\<exists>nn. new_NeuralNetwork dis bias_dis sizes lr = Inr nn \<and> layer_sizes nn = sizes)
       = (2 \<le> length sizes)
   \<and> new_NeuralNetwork dis bias_dis [1, 0, 1] lr =
       Inr \<lparr>layer_sizes = [1, 0, 1], weights = [[], [[]]], biases = [[], [bias_dis 1 0]],
            nn_learning_rate = lr, layer_outputs = [], layer_inputs = []\<rparr>"
  by (auto simp: new_NeuralNetwork_def initialize_weights_biases_def eval_nat_numeral)

theorem construction_validates_length_only_witness:
  "new_NeuralNetwork (\<lambda>i r c. 0) (\<lambda>i r. 0) [1] (1 / 100) = Inl InvalidArgument
   \<and> new_NeuralNetwork (\<lambda>i r c. 0) (\<lambda>i r. 0) [1, 0, 1] (1 / 100) = Inr degenerate_network"
  using construction_validates_length_only [of "\<lambda>i r c. 0" "\<lambda>i r. 0" "[1]" "1 / 100"]
  by (simp add: degenerate_network_def)

text \<open>
  Claim C5, as amended. For every object that satisfies the dimension invariant and every
  input: \<open>predict\<close> returns what \<open>forward_pass\<close> returns, a value or an exception; \<open>predict\<close>
  leaves the object as it is, so a second \<open>predict\<close> on the same input returns the same;
  both throw \<open>InvalidArgument\<close> exactly when the input's size differs from \<open>layer_sizes[0]\<close>
  or some layer after the input layer has size zero; in every other case they return the
  output of the layers (sigmoid on every transition but the last, identity on the last).
\<close>

theorem predict_agrees_with_forward_pass:
  assumes "wf_network nn"
  shows "fst (predict nn input) = fst (forward_pass nn input)
     \<and> snd (predict nn input) = nn
     \<and> predict (snd (predict nn input)) input = predict nn input
     \<and> (fst (predict nn input) = Inl InvalidArgument)
         = (length input \<noteq> layer_sizes nn ! 0 \<or> \<not> later_layers_positive nn)
     \<and> (fst (forward_pass nn input) = Inl InvalidArgument)
         = (length input \<noteq> layer_sizes nn ! 0 \<or> \<not> later_layers_positive nn)
     \<and> (fst (predict nn input) = Inr (network_output nn input))
         = (length input = layer_sizes nn ! 0 \<and> later_layers_positive nn)"
proof -
  have eq: "fst (predict nn input) = fst (forward_pass nn input)"
    by (simp add: forward_pass_predict)
  have st: "snd (predict nn input) = nn" by (simp add: predict_def)
  have cases: "fst (forward_pass nn input) =
      (if length input = layer_sizes nn ! 0 \<and> later_layers_positive nn
       then Inr (network_output nn input) else Inl InvalidArgument)"
    using forward_pass_success [OF assms, of input] forward_pass_failure [OF assms, of input]
    by (cases "length input = layer_sizes nn ! 0 \<and> later_layers_positive nn") simp_all
  show ?thesis unfolding st eq cases by auto
qed

theorem predict_agrees_with_forward_pass_witness:
  "fst (predict small_network [2]) = fst (forward_pass small_network [2])
   \<and> snd (predict small_network [2]) = small_network
   \<and> fst (predict small_network [2]) = Inr [1]
   \<and> fst (predict small_network [2, 3]) = Inl InvalidArgument
   \<and> fst (forward_pass degenerate_network [0]) = Inl InvalidArgument"
proof -
  have out: "network_output small_network [2] = [1]"
    by (simp add: small_network_def network_output_def affine_def eval_nat_numeral)
  have l: "length [2 :: real] = layer_sizes small_network ! 0"
    "length [2 :: real, 3] \<noteq> layer_sizes small_network ! 0"
    by (simp_all add: small_network_def)
  from predict_agrees_with_forward_pass [OF wf_small, of "[2]"] pos_small l(1)
  have a: "fst (predict small_network [2]) = fst (forward_pass small_network [2])"
    "snd (predict small_network [2]) = small_network"
    "fst (predict small_network [2]) = Inr [1]"
    unfolding out by blast+
  from predict_agrees_with_forward_pass [OF wf_small, of "[2, 3]"] l(2)
  have b: "fst (predict small_network [2, 3]) = Inl InvalidArgument" by blast
  from predict_agrees_with_forward_pass [OF wf_degenerate, of "[0]"] not_pos_degenerate
  have c: "fst (forward_pass degenerate_network [0]) = Inl InvalidArgument" by blast
  from a b c show ?thesis by blast
qed

text \<open>
  Claim C5 as stated fails on the network that the constructor builds from \<open>{1, 0, 1}\<close>: the
  input \<open>[0]\<close> has the size of the input layer, and \<open>predict\<close> and \<open>forward_pass\<close> throw
  \<open>InvalidArgument\<close> all the same, from the product with the empty first weight matrix.
\<close>

theorem predict_throws_on_empty_layer_counterexample:
  "new_NeuralNetwork (\<lambda>i r c. 0) (\<lambda>i r. 0) [1, 0, 1] (1 / 100) = Inr degenerate_network
   \<and> length [0 :: real] = layer_sizes degenerate_network ! 0
   \<and> fst (predict degenerate_network [0]) = Inl InvalidArgument
   \<and> fst (forward_pass degenerate_network [0]) = Inl InvalidArgument"
proof -
  have "fst (forward_pass degenerate_network [0]) = Inl InvalidArgument"
    by (simp add: forward_pass_def degenerate_network_def weighted_input_def multiply_mv_def
        eval_nat_numeral upt_conv_Cons)
  with construct_degenerate predict_degenerate show ?thesis
    by (simp add: degenerate_network_def)
qed

text \<open>
  Claim C6. Whenever the target's size differs from \<open>layer_sizes.back()\<close>, \<open>backpropagate\<close>
  throws \<open>InvalidArgument\<close> and leaves every weight matrix and every bias vector unchanged
  (for any input, of the right size or not).
\<close>

theorem backpropagate_rejects_target:
  assumes "length target \<noteq> last (layer_sizes nn)"
  shows "fst (backpropagate nn input target) = Inl InvalidArgument
     \<and> weights (snd (backpropagate nn input target)) = weights nn
     \<and> biases (snd (backpropagate nn input target)) = biases nn"
proof -
  obtain r nn1 where fp: "forward_pass nn input = (r, nn1)" by (cases "forward_pass nn input")
  from forward_pass_same [of nn input] fp have same: "same_parameters nn nn1" by simp
  then have p: "layer_sizes nn1 = layer_sizes nn" "weights nn1 = weights nn" "biases nn1 = biases nn"
    by (simp_all add: same_parameters_def)
  show ?thesis
  proof (cases r)
    case (Inl e)
    from fp Inl have "fst (predict nn input) = Inl e" by (simp add: forward_pass_predict [symmetric])
    then have "e = InvalidArgument"
      by (auto simp: predict_def split: if_splits dest: predict_layers_error)
    with fp Inl p show ?thesis by (simp add: backpropagate_def)
  next
    case (Inr out)
    with fp assms p show ?thesis by (simp add: backpropagate_def)
  qed
qed

theorem backpropagate_rejects_target_witness:
  "fst (backpropagate small_network [2] [0, 0]) = Inl InvalidArgument
   \<and> weights (snd (backpropagate small_network [2] [0, 0])) = weights small_network
   \<and> biases (snd (backpropagate small_network [2] [0, 0])) = biases small_network"
  using backpropagate_rejects_target [of "[0, 0]" small_network "[2]"]
  by (simp add: small_network_def)

text \<open>
  Claim C2, as amended. For every object that satisfies the dimension invariant and whose
  layers after the input layer all have at least one neuron, every input of size
  \<open>layer_sizes[0]\<close> and every target of size \<open>layer_sizes.back()\<close>: \<open>backpropagate\<close> returns, the
  forward pass stores every pre-activation \<open>z\<^sub>l\<close> and activation \<open>a\<^sub>l\<close>, the deltas it computes
  are \<open>predicted - target\<close> for the output layer and \<open>(W\<^bsub>l+1\<^esub>\<^sup>T delta\<^bsub>l+1\<^esub>)\<close> times, entry by entry,
  the sigmoid derivative of the layer's own \<open>z\<^sub>l\<close> for each hidden layer, and the object it
  leaves has \<open>W\<^sub>l - learning_rate * (delta\<^sub>l outer-product a\<^sub>l)\<close> and
  \<open>b\<^sub>l - learning_rate * delta\<^sub>l\<close> for every layer.
\<close>

theorem backpropagate_is_sgd_step:
  assumes "wf_network nn" and "later_layers_positive nn"
    and "length input = layer_sizes nn ! 0" and "length target = last (layer_sizes nn)"
  shows "backpropagate nn input target = (Inr (), sgd_step nn input target)
     \<and> (\<exists>nn1. forward_pass nn input = (Inr (network_output nn input), nn1)
           \<and> layer_inputs nn1 = map (preactivation_at nn input) [0..<length (layer_sizes nn) - 1]
           \<and> layer_outputs nn1 = map (activation_at nn input) [0..<length (layer_sizes nn)]
           \<and> compute_deltas nn1 (network_output nn input) target
               = Inr (map (delta_at nn input target) [0..<length (layer_sizes nn) - 1]))"
proof -
  let ?n = "length (layer_sizes nn)"
  let ?nn1 = "forward_state nn input (?n - 1)"
  from assms(1) have n: "2 \<le> ?n" by (simp add: wf_network_def)
  have "forward_pass nn input = (Inr (network_output nn input), ?nn1)"
    by (rule forward_pass_success [OF assms(1,3,2)])
  moreover have "compute_deltas ?nn1 (network_output nn input) target
      = Inr (map (delta_at nn input target) [0..<?n - 1])"
    by (rule compute_deltas_spec [OF assms(1,2) forward_state_same forward_state_final(1) [OF n] assms(4)])
  moreover note forward_state_final [OF n, of input]
    backpropagate_success [OF assms(1,3,2,4)]
  ultimately show ?thesis by blast
qed

theorem backpropagate_is_sgd_step_witness:
  "backpropagate small_network [2] [0] =
     (Inr (), small_network\<lparr>weights := [[[- 1]], [[3 / 2]]], biases := [[- 1 / 2], [- 1]],
                            layer_outputs := [[2], [1 / 2], [1]], layer_inputs := [[0], [1]]\<rparr>)"
  using backpropagate_is_sgd_step [OF wf_small pos_small, of "[2]" "[0]"]
  by (simp add: sgd_small) (simp add: small_network_def)

text \<open>
  Claim C2 as stated fails on the network that the constructor builds from \<open>{1, 0, 1}\<close>: input
  and target have the sizes of the input and output layers, and \<open>backpropagate\<close> throws
  \<open>InvalidArgument\<close> in its forward pass and updates nothing.
\<close>

theorem backpropagate_throws_on_empty_layer_counterexample:
  "new_NeuralNetwork (\<lambda>i r c. 0) (\<lambda>i r. 0) [1, 0, 1] (1 / 100) = Inr degenerate_network
   \<and> length [0 :: real] = layer_sizes degenerate_network ! 0
   \<and> length [0 :: real] = last (layer_sizes degenerate_network)
   \<and> fst (backpropagate degenerate_network [0] [0]) = Inl InvalidArgument
   \<and> weights (snd (backpropagate degenerate_network [0] [0])) = weights degenerate_network
   \<and> biases (snd (backpropagate degenerate_network [0] [0])) = biases degenerate_network"
proof -
  have "backpropagate degenerate_network [0] [0] =
      (Inl InvalidArgument,
       degenerate_network\<lparr>layer_outputs := [[0], [], []], layer_inputs := [[], []]\<rparr>)"
    by (simp add: backpropagate_def forward_pass_def degenerate_network_def weighted_input_def
        multiply_mv_def eval_nat_numeral upt_conv_Cons)
  with construct_degenerate show ?thesis by (simp add: degenerate_network_def)
qed

subsection \<open>The dimension invariant\<close>

lemma same_parameters_wf:
  "same_parameters nn nn' \<Longrightarrow> wf_network nn \<Longrightarrow> wf_network nn' \<and> layer_sizes nn' = layer_sizes nn"
  by (simp add: wf_network_def same_parameters_def)

lemma wf_sgd_step:
  "wf_network nn \<Longrightarrow> wf_network (sgd_step nn input target)
     \<and> layer_sizes (sgd_step nn input target) = layer_sizes nn"
  by (simp add: wf_network_def sgd_step_def updated_weights_def updated_biases_def)

lemma backpropagate_wf:
  assumes "wf_network nn"
  shows "wf_network (snd (backpropagate nn input target))
     \<and> layer_sizes (snd (backpropagate nn input target)) = layer_sizes nn"
proof (cases "length input = layer_sizes nn ! 0 \<and> later_layers_positive nn
                \<and> length target = last (layer_sizes nn)")
  case True
  then show ?thesis using backpropagate_success [OF assms, of input target] wf_sgd_step [OF assms]
    by simp
next
  case False
  from backpropagate_failure [OF assms False]
  have "same_parameters nn (snd (backpropagate nn input target))" by simp
  from same_parameters_wf [OF this assms] show ?thesis .
qed

lemma train_samples_wf:
  "wf_network nn \<Longrightarrow> wf_network (snd (train_samples inputs targets idxs nn))
     \<and> layer_sizes (snd (train_samples inputs targets idxs nn)) = layer_sizes nn"
proof (induction idxs arbitrary: nn)
  case Nil
  then show ?case by simp
next
  case (Cons idx rest)
  obtain r nn1 where bp: "backpropagate nn (inputs ! idx) (targets ! idx) = (r, nn1)"
    by (cases "backpropagate nn (inputs ! idx) (targets ! idx)")
  from backpropagate_wf [OF Cons.prems, of "inputs ! idx" "targets ! idx"] bp
  have wf1: "wf_network nn1" "layer_sizes nn1 = layer_sizes nn" by simp_all
  show ?case
  proof (cases r)
    case (Inl e)
    with bp wf1 show ?thesis by simp
  next
    case (Inr u)
    with bp wf1 Cons.IH [OF wf1(1)] show ?thesis by simp
  qed
qed

lemma predict_state [simp]: "snd (predict nn input) = nn"
  by (simp add: predict_def)

lemma predict_pair: "predict nn input = (fst (predict nn input), nn)"
  by (simp add: predict_def)

lemma dataset_mse_sum_state [simp]:
  "snd (dataset_mse_sum inputs targets is acc nn) = nn"
proof (induction "is" arbitrary: acc)
  case Nil
  show ?case by simp
next
  case (Cons i rest)
  show ?case
    by (subst dataset_mse_sum.simps, subst predict_pair) (simp add: Cons.IH split: sum.splits)
qed

lemma collect_predictions_state [simp]:
  "snd (collect_predictions inputs acc nn) = nn"
proof (induction inputs arbitrary: acc)
  case Nil
  show ?case by simp
next
  case (Cons x rest)
  show ?case
    by (subst collect_predictions.simps, subst predict_pair) (simp add: Cons.IH split: sum.splits)
qed

lemma training_epoch_wf:
  assumes "wf_network (network t)"
  shows "wf_network (network (snd (training_epoch shuffle inputs targets epochs r epoch t)))
     \<and> layer_sizes (network (snd (training_epoch shuffle inputs targets epochs r epoch t)))
         = layer_sizes (network t)"
proof -
  let ?idxs = "map (\<lambda>i. shuffle (nat epoch) (training_indices t) ! i) [0..<length inputs]"
  obtain res nn1 where ts: "train_samples inputs targets ?idxs (network t) = (res, nn1)"
    by (cases "train_samples inputs targets ?idxs (network t)")
  from train_samples_wf [OF assms, of inputs targets ?idxs] ts
  have wf1: "wf_network nn1" "layer_sizes nn1 = layer_sizes (network t)" by simp_all
  obtain v nn2 where ds: "dataset_mse_sum inputs targets [0..<length inputs] (Some 0) nn1 = (v, nn2)"
    by (cases "dataset_mse_sum inputs targets [0..<length inputs] (Some 0) nn1")
  from dataset_mse_sum_state [of inputs targets "[0..<length inputs]" "Some 0" nn1] ds
  have nn2: "nn2 = nn1" by simp
  show ?thesis
    using ts ds wf1 nn2
    by (auto simp: training_epoch_def Let_def split: sum.splits)
qed

lemma epochs_loop_wf:
  "wf_network (network t) \<Longrightarrow>
     wf_network (network (snd (epochs_loop shuffle inputs targets epochs r epoch t)))
     \<and> layer_sizes (network (snd (epochs_loop shuffle inputs targets epochs r epoch t)))
         = layer_sizes (network t)"
proof (induction shuffle inputs targets epochs r epoch t rule: epochs_loop.induct)
  case (1 shuffle inputs targets epochs r epoch t)
  show ?case
  proof (cases "epoch < epochs")
    case False
    with "1.prems" show ?thesis by simp
  next
    case True
    obtain res t1 where te: "training_epoch shuffle inputs targets epochs r epoch t = (res, t1)"
      by (cases "training_epoch shuffle inputs targets epochs r epoch t")
    from training_epoch_wf [OF "1.prems", of shuffle inputs targets epochs r epoch] te
    have wf1: "wf_network (network t1)" "layer_sizes (network t1) = layer_sizes (network t)"
      by simp_all
    show ?thesis
    proof (cases res)
      case (Inl e)
      with True te wf1 show ?thesis by simp
    next
      case (Inr u)
      from "1.IH" [OF True te [symmetric] Inr wf1(1)] True te Inr wf1(2) show ?thesis by simp
    qed
  qed
qed

lemma train_for_epochs_wf:
  assumes "wf_network nn"
  shows "wf_network (network (snd (train_for_epochs shuffle nn inputs targets epochs r)))
     \<and> layer_sizes (network (snd (train_for_epochs shuffle nn inputs targets epochs r)))
         = layer_sizes nn"
proof (cases "inputs = [] \<or> length inputs \<noteq> length targets")
  case True
  with assms show ?thesis by (simp add: train_for_epochs_def)
next
  case False
  let ?t0 = "\<lparr>network = nn, training_indices = [0..<length inputs], reports = []\<rparr>"
  obtain res t where el: "epochs_loop shuffle inputs targets epochs r 0 ?t0 = (res, t)"
    by (cases "epochs_loop shuffle inputs targets epochs r 0 ?t0")
  from epochs_loop_wf [of ?t0 shuffle inputs targets epochs r 0] assms el
  have wf1: "wf_network (network t)" "layer_sizes (network t) = layer_sizes nn" by simp_all
  obtain ps nn1 where cp: "collect_predictions inputs [] (network t) = (ps, nn1)"
    by (cases "collect_predictions inputs [] (network t)")
  from collect_predictions_state [of inputs "[]" "network t"] cp have "nn1 = network t" by simp
  with False el cp wf1 show ?thesis
    by (auto simp: train_for_epochs_def split: sum.splits)
qed

lemma after_call_wf:
  "wf_network nn \<Longrightarrow> wf_network (after_call nn c) \<and> layer_sizes (after_call nn c) = layer_sizes nn"
proof (cases c)
  case (ForwardPass input)
  assume "wf_network nn"
  from same_parameters_wf [OF forward_pass_same this, of input] ForwardPass show ?thesis
    by simp
qed (simp_all add: backpropagate_wf train_def train_for_epochs_wf)

lemma after_calls_wf:
  "wf_network nn \<Longrightarrow> wf_network (after_calls nn calls)
     \<and> layer_sizes (after_calls nn calls) = layer_sizes nn"
  unfolding after_calls_def
proof (induction calls arbitrary: nn)
  case Nil
  then show ?case by simp
next
  case (Cons c rest)
  from after_call_wf [OF Cons.prems, of c] Cons.IH [of "after_call nn c"] show ?case by simp
qed

lemma new_network_wf:
  "new_NeuralNetwork dis bias_dis sizes lr = Inr nn \<Longrightarrow> wf_network nn \<and> layer_sizes nn = sizes"
  by (auto simp: new_NeuralNetwork_def initialize_weights_biases_def wf_network_def Let_def
      split: if_splits)

lemma construct_fresh:
  "new_NeuralNetwork (\<lambda>i r c. 1 / 4) (\<lambda>i r. 1 / 20) [1, 1] (1 / 100) = Inr fresh_network"
  by (simp add: new_NeuralNetwork_def initialize_weights_biases_def fresh_network_def
      eval_nat_numeral)

text \<open>
  Claim C9. For every object that the constructor returns (so \<open>layer_sizes\<close> has at least 2
  entries), at once and after any sequence of \<open>predict\<close>, \<open>forward_pass\<close>, \<open>backpropagate\<close>,
  \<open>train\<close> and \<open>train_for_epochs\<close> calls, returning or throwing, the dimension invariant
  holds for the sizes given to the constructor: \<open>weights[i]\<close> is
  \<open>layer_sizes[i+1] x layer_sizes[i]\<close> and \<open>biases[i]\<close> has length \<open>layer_sizes[i+1]\<close>. And
  \<open>predict\<close>, the forward pass and the two loops that only predict (the loss report and the
  final predictions) leave weights and biases as they are, as does a \<open>backpropagate\<close> that
  throws: only the update step of a \<open>backpropagate\<close> that returns changes them.
\<close>

theorem dimension_invariant:
  assumes "new_NeuralNetwork dis bias_dis sizes lr = Inr nn0"
  shows "wf_network nn0 \<and> layer_sizes nn0 = sizes
     \<and> wf_network (after_calls nn0 calls) \<and> layer_sizes (after_calls nn0 calls) = sizes
     \<and> snd (predict nn input) = nn
     \<and> same_parameters nn (snd (forward_pass nn input))
     \<and> snd (dataset_mse_sum inputs targets idxs acc nn) = nn
     \<and> snd (collect_predictions inputs ps nn) = nn
     \<and> (wf_network nn \<and> fst (backpropagate nn input target) \<noteq> Inr ()
          \<longrightarrow> same_parameters nn (snd (backpropagate nn input target)))"
proof -
  note wf0 = new_network_wf [OF assms]
  from wf0 after_calls_wf [of nn0 calls]
  have a: "wf_network (after_calls nn0 calls)" "layer_sizes (after_calls nn0 calls) = sizes"
    by simp_all
  have b: "wf_network nn \<and> fst (backpropagate nn input target) \<noteq> Inr ()
          \<longrightarrow> same_parameters nn (snd (backpropagate nn input target))"
  proof
    assume h: "wf_network nn \<and> fst (backpropagate nn input target) \<noteq> Inr ()"
    then have "\<not> (length input = layer_sizes nn ! 0 \<and> later_layers_positive nn
                \<and> length target = last (layer_sizes nn))"
      using backpropagate_success [of nn input target] by auto
    with h backpropagate_failure [of nn input target]
    show "same_parameters nn (snd (backpropagate nn input target))" by blast
  qed
  from wf0 a b forward_pass_same [of nn input] show ?thesis by simp
qed

theorem dimension_invariant_witness:
  "wf_network fresh_network
   \<and> wf_network (after_calls fresh_network
        [Train [1] [0], Predict [1], Backpropagate [1, 2] [0],
         TrainForEpochs (\<lambda>e xs. rev xs) [[1], [2]] [[0], [1]] 2 10])
   \<and> layer_sizes (after_calls fresh_network
        [Train [1] [0], Predict [1], Backpropagate [1, 2] [0],
         TrainForEpochs (\<lambda>e xs. rev xs) [[1], [2]] [[0], [1]] 2 10]) = [1, 1]"
  using dimension_invariant [OF construct_fresh,
      of "[Train [1] [0], Predict [1], Backpropagate [1, 2] [0],
           TrainForEpochs (\<lambda>e xs. rev xs) [[1], [2]] [[0], [1]] 2 10]"]
  by blast

subsection \<open>Training for several epochs\<close>

lemma later_layers_positive_sizes:
  "layer_sizes nn' = layer_sizes nn \<Longrightarrow> later_layers_positive nn' = later_layers_positive nn"
  by (simp add: later_layers_positive_def)

lemma sample_ok_sizes:
  "layer_sizes nn' = layer_sizes nn \<Longrightarrow> sample_ok nn' inputs targets idx = sample_ok nn inputs targets idx"
  by (simp add: sample_ok_def)

lemma train_samples_result:
  "wf_network nn \<Longrightarrow>
   fst (train_samples inputs targets idxs nn) =
     (if idxs = [] \<or> (later_layers_positive nn \<and> (\<forall>idx\<in>set idxs. sample_ok nn inputs targets idx))
      then Inr () else Inl InvalidArgument)"
proof (induction idxs arbitrary: nn)
  case Nil
  show ?case by simp
next
  case (Cons idx rest)
  let ?x = "inputs ! idx" and ?t = "targets ! idx"
  show ?case
  proof (cases "later_layers_positive nn \<and> sample_ok nn inputs targets idx")
    case True
    then have bp: "backpropagate nn ?x ?t = (Inr (), sgd_step nn ?x ?t)"
      using backpropagate_success [OF Cons.prems, of ?x ?t] by (simp add: sample_ok_def)
    note w = wf_sgd_step [OF Cons.prems, of ?x ?t]
    from w have ls: "layer_sizes (sgd_step nn ?x ?t) = layer_sizes nn" by simp
    from w Cons.IH [of "sgd_step nn ?x ?t"]
    have "fst (train_samples inputs targets rest (sgd_step nn ?x ?t)) =
       (if rest = [] \<or> (later_layers_positive nn \<and> (\<forall>i\<in>set rest. sample_ok nn inputs targets i))
        then Inr () else Inl InvalidArgument)"
      by (simp add: later_layers_positive_sizes [OF ls] sample_ok_sizes [OF ls])
    with True show ?thesis by (auto simp: bp)
  next
    case False
    then have "\<not> (length ?x = layer_sizes nn ! 0 \<and> later_layers_positive nn
                \<and> length ?t = last (layer_sizes nn))"
      by (auto simp: sample_ok_def)
    from backpropagate_failure [OF Cons.prems this]
    obtain nn1 where "backpropagate nn ?x ?t = (Inl InvalidArgument, nn1)"
      by (cases "backpropagate nn ?x ?t") auto
    with False show ?thesis by auto
  qed
qed

lemma predict_good:
  assumes "wf_network nn" "later_layers_positive nn" "length x = layer_sizes nn ! 0"
  shows "predict nn x = (Inr (network_output nn x), nn)"
    and "length (network_output nn x) = last (layer_sizes nn)"
    and "network_output nn x \<noteq> []"
proof -
  let ?n = "length (layer_sizes nn)"
  from assms(1) have n: "2 \<le> ?n" by (simp add: wf_network_def)
  from forward_pass_success [OF assms(1,3,2)] have "fst (predict nn x) = Inr (network_output nn x)"
    by (simp add: forward_pass_predict [symmetric])
  then show "predict nn x = (Inr (network_output nn x), nn)"
    by (subst predict_pair) simp
  have "?n - 1 = Suc (?n - 2)" using n by simp
  then have l: "length (network_output nn x) = layer_sizes nn ! (?n - 1)"
    by (simp add: network_output_def)
  then show "length (network_output nn x) = last (layer_sizes nn)"
    by (simp add: last_layer_size [OF n])
  from n have "?n - 1 \<in> {1..<?n}" by auto
  with assms(2) have "0 < layer_sizes nn ! (?n - 1)"
    unfolding later_layers_positive_def by blast
  with l show "network_output nn x \<noteq> []" by auto
qed

lemma dataset_mse_sum_good:
  assumes "wf_network nn" "later_layers_positive nn"
  shows "\<forall>i\<in>set idxs. sample_ok nn inputs targets i \<Longrightarrow>
     \<exists>v. dataset_mse_sum inputs targets idxs acc nn = (Inr v, nn)"
proof (induction idxs arbitrary: acc)
  case Nil
  show ?case by simp
next
  case (Cons i rest)
  then have ok: "length (inputs ! i) = layer_sizes nn ! 0" "length (targets ! i) = last (layer_sizes nn)"
    by (simp_all add: sample_ok_def)
  note p = predict_good [OF assms ok(1)]
  obtain mse where m: "nn_mean_squared_error (network_output nn (inputs ! i)) (targets ! i) = Inr mse"
    using p(2) ok(2) by (simp add: nn_mean_squared_error_def Let_def)
  from Cons.IH [of "nan_add acc mse"] Cons.prems show ?case
    by (simp add: p(1) m)
qed

lemma collect_predictions_good:
  assumes "wf_network nn" "later_layers_positive nn"
  shows "\<forall>x\<in>set xs. length x = layer_sizes nn ! 0 \<Longrightarrow>
     collect_predictions xs acc nn = (Inr (acc @ map (\<lambda>x. Some (network_output nn x ! 0)) xs), nn)"
proof (induction xs arbitrary: acc)
  case Nil
  show ?case by simp
next
  case (Cons x rest)
  then have ok: "length x = layer_sizes nn ! 0" by simp
  note p = predict_good [OF assms ok]
  from Cons.IH [of "acc @ [Some (network_output nn x ! 0)]"] Cons.prems show ?case
    by (simp add: p(1) p(3))
qed

lemma dataset_ok_sizes:
  "layer_sizes nn' = layer_sizes nn \<Longrightarrow> dataset_ok nn' inputs targets = dataset_ok nn inputs targets"
  by (simp add: dataset_ok_def later_layers_positive_def)

lemma dataset_ok_samples:
  assumes "length inputs = length targets"
  shows "dataset_ok nn inputs targets \<longleftrightarrow>
     later_layers_positive nn \<and> (\<forall>idx\<in>{0..<length inputs}. sample_ok nn inputs targets idx)"
  using assms by (auto simp: dataset_ok_def sample_ok_def all_set_conv_all_nth)

lemma shuffled_indices:
  assumes "mset xs = mset [0..<n]"
  shows "map (\<lambda>i. xs ! i) [0..<n] = xs" and "set xs = {0..<n}"
proof -
  from assms have "size (mset xs) = size (mset [0..<n])" by simp
  then have "length xs = n" by simp
  then show "map (\<lambda>i. xs ! i) [0..<n] = xs" using map_nth [of xs] by simp
  from assms have "set_mset (mset xs) = set_mset (mset [0..<n])" by simp
  then show "set xs = {0..<n}" by simp
qed

lemma training_epoch_result:
  assumes wf: "wf_network (network t)"
    and perm: "\<forall>e xs. mset (shuffle e xs) = mset xs"
    and len: "length inputs = length targets" and ne: "inputs \<noteq> []"
    and idx: "mset (training_indices t) = mset [0..<length inputs]"
    and r: "r \<noteq> 0"
  shows "dataset_ok (network t) inputs targets \<Longrightarrow>
       \<exists>t'. training_epoch shuffle inputs targets epochs r epoch t = (Inr (), t')
          \<and> wf_network (network t') \<and> layer_sizes (network t') = layer_sizes (network t)
          \<and> mset (training_indices t') = mset [0..<length inputs]"
    and "\<not> dataset_ok (network t) inputs targets \<Longrightarrow>
       fst (training_epoch shuffle inputs targets epochs r epoch t) = Inl InvalidArgument"
proof -
  let ?n = "length inputs"
  let ?sh = "shuffle (nat epoch) (training_indices t)"
  from perm idx have m: "mset ?sh = mset [0..<?n]" by simp
  note s = shuffled_indices [OF m]
  from ne s(2) have sne: "?sh \<noteq> []" by auto
  obtain res nn1 where ts: "train_samples inputs targets ?sh (network t) = (res, nn1)"
    by (cases "train_samples inputs targets ?sh (network t)")
  from train_samples_wf [OF wf, of inputs targets ?sh] ts
  have wf1: "wf_network nn1" "layer_sizes nn1 = layer_sizes (network t)" by simp_all
  from train_samples_result [OF wf, of inputs targets ?sh] ts sne
  have res: "res = (if dataset_ok (network t) inputs targets then Inr () else Inl InvalidArgument)"
    by (simp add: dataset_ok_samples [OF len] s(2))
  {
    assume ok: "dataset_ok (network t) inputs targets"
    then have ok1: "dataset_ok nn1 inputs targets" by (simp add: dataset_ok_sizes [OF wf1(2)])
    then have "later_layers_positive nn1" "\<forall>i\<in>set [0..<?n]. sample_ok nn1 inputs targets i"
      by (simp_all add: dataset_ok_samples [OF len])
    from dataset_mse_sum_good [OF wf1(1) this, of "Some 0"]
    obtain v where "dataset_mse_sum inputs targets [0..<?n] (Some 0) nn1 = (Inr v, nn1)" ..
    with ok res ts wf1 m r
    show "\<exists>t'. training_epoch shuffle inputs targets epochs r epoch t = (Inr (), t')
          \<and> wf_network (network t') \<and> layer_sizes (network t') = layer_sizes (network t)
          \<and> mset (training_indices t') = mset [0..<?n]"
      by (simp add: training_epoch_def Let_def s(1))
  }
  {
    assume "\<not> dataset_ok (network t) inputs targets"
    with res ts show "fst (training_epoch shuffle inputs targets epochs r epoch t) = Inl InvalidArgument"
      by (simp add: training_epoch_def Let_def s(1))
  }
qed

lemma epochs_loop_good:
  assumes perm: "\<forall>e xs. mset (shuffle e xs) = mset xs"
    and len: "length inputs = length targets" and ne: "inputs \<noteq> []" and r: "r \<noteq> 0"
  shows "wf_network (network t) \<Longrightarrow> dataset_ok (network t) inputs targets \<Longrightarrow>
     mset (training_indices t) = mset [0..<length inputs] \<Longrightarrow>
     \<exists>t'. epochs_loop shuffle inputs targets epochs r epoch t = (Inr (), t')
        \<and> wf_network (network t') \<and> layer_sizes (network t') = layer_sizes (network t)"
  using assms
proof (induction shuffle inputs targets epochs r epoch t rule: epochs_loop.induct)
  case (1 shuffle inputs targets epochs r epoch t)
  show ?case
  proof (cases "epoch < epochs")
    case False
    with "1.prems" show ?thesis by simp
  next
    case True
    from training_epoch_result(1) [OF "1.prems"(1,4,5,6,3,7) "1.prems"(2), of epochs epoch]
    obtain t1 where te: "training_epoch shuffle inputs targets epochs r epoch t = (Inr (), t1)"
      and t1: "wf_network (network t1)" "layer_sizes (network t1) = layer_sizes (network t)"
        "mset (training_indices t1) = mset [0..<length inputs]" by blast
    from "1.prems"(2) have ok1: "dataset_ok (network t1) inputs targets"
      by (simp add: dataset_ok_sizes [OF t1(2)])
    from "1.IH" [OF True te [symmetric] refl t1(1) ok1 t1(3) "1.prems"(4,5,6,7)]
    show ?thesis using True te t1(2) by simp
  qed
qed

lemma epochs_loop_bad:
  assumes "wf_network (network t)" "\<forall>e xs. mset (shuffle e xs) = mset xs"
    "length inputs = length targets" "inputs \<noteq> []"
    "mset (training_indices t) = mset [0..<length inputs]" "r \<noteq> 0"
    "\<not> dataset_ok (network t) inputs targets" "epoch < epochs"
  shows "fst (epochs_loop shuffle inputs targets epochs r epoch t) = Inl InvalidArgument"
proof -
  from training_epoch_result(2) [OF assms(1-7), of epochs epoch]
  obtain t1 where "training_epoch shuffle inputs targets epochs r epoch t = (Inl InvalidArgument, t1)"
    by (cases "training_epoch shuffle inputs targets epochs r epoch t") auto
  with assms(8) show ?thesis by simp
qed


text \<open>
  Claim C4, as amended. For an object that satisfies the dimension invariant, a shuffle that
  permutes, a positive epoch count and a non-zero report interval: \<open>train_for_epochs\<close>
  throws \<open>InvalidArgument\<close> exactly when the inputs are empty, or their number differs from
  the number of targets, or some layer after the input layer has size zero, or some input's
  size differs from \<open>layer_sizes[0]\<close>, or some target's size differs from
  \<open>layer_sizes.back()\<close>; in every other case it returns one scalar per input, in the order
  of the inputs: the first component of what \<open>predict\<close> returns for that input on the object
  as training has left it.
\<close>

theorem train_for_epochs_result:
  assumes "wf_network nn" and "\<forall>e xs. mset (shuffle e xs) = mset xs"
    and "0 < epochs" and "r \<noteq> 0"
  shows "(fst (train_for_epochs shuffle nn inputs targets epochs r) = Inl InvalidArgument)
       = (inputs = [] \<or> length inputs \<noteq> length targets \<or> \<not> dataset_ok nn inputs targets)
     \<and> (inputs \<noteq> [] \<and> length inputs = length targets \<and> dataset_ok nn inputs targets \<longrightarrow>
          (\<exists>t. train_for_epochs shuffle nn inputs targets epochs r
                 = (Inr (map (\<lambda>x. Some (network_output (network t) x ! 0)) inputs), t)
             \<and> wf_network (network t) \<and> layer_sizes (network t) = layer_sizes nn
             \<and> (\<forall>x\<in>set inputs. predict (network t) x = (Inr (network_output (network t) x), network t)
                                \<and> network_output (network t) x \<noteq> [])))"
proof (cases "inputs = [] \<or> length inputs \<noteq> length targets")
  case True
  then show ?thesis by (auto simp: train_for_epochs_def)
next
  case False
  then have ne: "inputs \<noteq> []" and len: "length inputs = length targets" by simp_all
  let ?t0 = "\<lparr>network = nn, training_indices = [0..<length inputs], reports = []\<rparr>"
  show ?thesis
  proof (cases "dataset_ok nn inputs targets")
    case bad: False
    from epochs_loop_bad [of ?t0 shuffle inputs targets r 0 epochs] assms len ne bad
    obtain t1 where el: "epochs_loop shuffle inputs targets epochs r 0 ?t0 = (Inl InvalidArgument, t1)"
      by (cases "epochs_loop shuffle inputs targets epochs r 0 ?t0") auto
    have "train_for_epochs shuffle nn inputs targets epochs r = (Inl InvalidArgument, t1)"
      unfolding train_for_epochs_def el prod.case sum.case using False by simp
    with False bad show ?thesis by simp
  next
    case ok: True
    from epochs_loop_good [OF assms(2) len ne assms(4), of ?t0 epochs 0] assms(1) ok
    obtain t1 where el: "epochs_loop shuffle inputs targets epochs r 0 ?t0 = (Inr (), t1)"
      and t1: "wf_network (network t1)" "layer_sizes (network t1) = layer_sizes nn"
      by auto
    from ok have ok1: "dataset_ok (network t1) inputs targets"
      by (simp add: dataset_ok_sizes [OF t1(2)])
    then have p: "later_layers_positive (network t1)"
      "\<forall>x\<in>set inputs. length x = layer_sizes (network t1) ! 0"
      by (simp_all add: dataset_ok_def)
    from collect_predictions_good [OF t1(1) p, of "[]"]
    have cp: "collect_predictions inputs [] (network t1)
        = (Inr (map (\<lambda>x. Some (network_output (network t1) x ! 0)) inputs), network t1)"
      by simp
    have run: "train_for_epochs shuffle nn inputs targets epochs r
        = (Inr (map (\<lambda>x. Some (network_output (network t1) x ! 0)) inputs), t1)"
      unfolding train_for_epochs_def el prod.case sum.case cp using False by simp
    have "\<forall>x\<in>set inputs. predict (network t1) x = (Inr (network_output (network t1) x), network t1)
                                \<and> network_output (network t1) x \<noteq> []"
      using predict_good(1,3) [OF t1(1) p(1)] p(2) by blast
    with run t1 have "\<exists>t. train_for_epochs shuffle nn inputs targets epochs r
                 = (Inr (map (\<lambda>x. Some (network_output (network t) x ! 0)) inputs), t)
             \<and> wf_network (network t) \<and> layer_sizes (network t) = layer_sizes nn
             \<and> (\<forall>x\<in>set inputs. predict (network t) x = (Inr (network_output (network t) x), network t)
                                \<and> network_output (network t) x \<noteq> [])"
      by blast
    moreover from run have "fst (train_for_epochs shuffle nn inputs targets epochs r) \<noteq> Inl InvalidArgument"
      by simp
    ultimately show ?thesis using False ok by blast
  qed
qed

lemma wf_fresh: "wf_network fresh_network"
  using new_network_wf [OF construct_fresh] by simp

lemma dataset_ok_fresh: "dataset_ok fresh_network [[1], [2]] [[0], [1]]"
  by (simp add: dataset_ok_def later_layers_positive_def fresh_network_def eval_nat_numeral
      atLeastLessThanSuc)

theorem train_for_epochs_result_witness:
  "\<exists>t. train_for_epochs (\<lambda>e xs. rev xs) fresh_network [[1], [2]] [[0], [1]] 3 10
          = (Inr [Some (network_output (network t) [1] ! 0), Some (network_output (network t) [2] ! 0)], t)
       \<and> predict (network t) [1] = (Inr (network_output (network t) [1]), network t)
       \<and> predict (network t) [2] = (Inr (network_output (network t) [2]), network t)"
  using train_for_epochs_result [OF wf_fresh, of "\<lambda>e xs. rev xs" 3 10 "[[1], [2]]" "[[0], [1]]"]
    dataset_ok_fresh
  by auto

text \<open>
  Claim C4 as stated fails: on the network that the constructor builds from \<open>{1, 1}\<close>, the one
  input \<open>[1, 2]\<close> with the one target \<open>[0]\<close> is a non-empty dataset with as many targets as
  inputs, and \<open>train_for_epochs\<close> throws \<open>InvalidArgument\<close> all the same, from the forward pass
  of the first training step.
\<close>

theorem train_for_epochs_throws_on_wide_input_counterexample:
  "new_NeuralNetwork (\<lambda>i r c. 1 / 4) (\<lambda>i r. 1 / 20) [1, 1] (1 / 100) = Inr fresh_network
   \<and> [[1, 2 :: real]] \<noteq> []
   \<and> length [[1, 2 :: real]] = length [[0 :: real]]
   \<and> fst (train_for_epochs (\<lambda>e xs. xs) fresh_network [[1, 2]] [[0]] 1 10) = Inl InvalidArgument"
proof -
  have "fst (train_for_epochs (\<lambda>e xs. xs) fresh_network [[1, 2]] [[0]] 1 10) = Inl InvalidArgument"
    by (simp add: train_for_epochs_def training_epoch_def backpropagate_def forward_pass_def
        fresh_network_def)
  with construct_fresh show ?thesis by simp
qed

end
